theory Spec2Isabelle
  imports Complex_Main
begin

section \<open>Conjugate-gradient minimisation (package opt, type ConjGrad)\<close>

text \<open>
  The optimizer of \<^verbatim>\<open>ConjGrad.Min\<close> is embedded with explicit state passing: the
  receiver \<^verbatim>\<open>o\<close> is a record that every step takes and returns, the caller's vector
  \<^verbatim>\<open>x\<close> (modified in place by the line search) is threaded beside it, and a panic is a
  value of the result type.

  A \<^verbatim>\<open>float64\<close> is read as a real number (exact arithmetic: no rounding, no NaN, no
  infinities), a \<^verbatim>\<open>la.Vector\<close> as a list of reals, a Go \<^verbatim>\<open>int\<close> as an integer (the
  counters stay far below the 64-bit range). The dimension \<^verbatim>\<open>size\<close> is a natural number:
  \<^verbatim>\<open>NewConjGrad\<close> cannot allocate vectors of negative length. The objective and the
  gradient are pure functions; \<^verbatim>\<open>jfcn(o.u, x)\<close>, which fills \<^verbatim>\<open>o.u\<close> in place,
  becomes the assignment of \<open>jfcn x\<close> to \<open>u\<close>.
\<close>

type_synonym Vector = "real list"

subsection \<open>Helpers of the packages la and utl\<close>

text \<open>Modelled from the spec: the generic vector container (dot product, scaled addition,
  in-place scale/copy, Euclidean norm) and the maximum of two numbers live in the packages
  \<^verbatim>\<open>la\<close> and \<^verbatim>\<open>utl\<close>, which are not part of the reviewed source.\<close>

definition VecDot :: "Vector \<Rightarrow> Vector \<Rightarrow> real" where
  "VecDot a b = sum_list (map2 (*) a b)"

definition VecAdd :: "real \<Rightarrow> Vector \<Rightarrow> real \<Rightarrow> Vector \<Rightarrow> Vector" where
  "VecAdd \<alpha> a \<beta> b = map2 (\<lambda>p q. \<alpha> * p + \<beta> * q) a b"

definition Norm :: "Vector \<Rightarrow> real" where
  "Norm v = sqrt (VecDot v v)"

definition Apply :: "real \<Rightarrow> Vector \<Rightarrow> Vector" where
  "Apply \<alpha> v = map (\<lambda>p. \<alpha> * p) v"

definition Max_utl :: "real \<Rightarrow> real \<Rightarrow> real" where
  "Max_utl a b = (if a > b then a else b)"

text \<open>Go's builtin \<^verbatim>\<open>copy(dst, src)\<close>: the first \<open>min (len dst) (len src)\<close> elements
  of \<open>dst\<close> are overwritten.\<close>

definition copy_go :: "Vector \<Rightarrow> Vector \<Rightarrow> Vector" where
  "copy_go dst src = take (length dst) src @ drop (length src) dst"

subsection \<open>Data\<close>

text \<open>The history recorder is an external collaborator; its value is the log of the calls
  made on it.\<close>

datatype History_t =
    NewHistory int real Vector "Vector \<Rightarrow> real"
  | Append History_t real Vector Vector

datatype error =
    FailToConverge int       \<comment> \<open>"fail to converge after %d iterations"\<close>
  | JacobianIncorrect real   \<comment> \<open>"Jacobian function is incorrect. diff = %v"\<close>

record ConjGrad =
  MaxIt :: int
  Ftol :: real
  Gtol :: real
  Verbose :: bool
  History :: bool
  UseBrent :: bool
  UseFRmethod :: bool
  CheckJfcn :: bool
  NumFeval :: int
  NumJeval :: int
  NumIter :: int
  Hist :: "History_t option"
  size_n :: nat
  tiny :: real
  ffcn :: "Vector \<Rightarrow> real"
  jfcn :: "Vector \<Rightarrow> Vector"
  u :: Vector
  g :: Vector
  h :: Vector
  tmp :: Vector

text \<open>What one call of a line search delivers: the step length, the minimum along the
  line, the point advanced in place, and the values the solver's evaluation counters hold
  after the call (what \<^verbatim>\<open>*nfeval\<close> and \<^verbatim>\<open>*nJeval\<close> read). The direction handed to
  it is left as it is.\<close>

record LineResult =
  lambda_ls :: real
  fmin_ls :: real
  x_ls :: Vector
  NumFeval_ls :: int
  NumJeval_ls :: int

text \<open>The collaborators whose code is outside the reviewed source are parameters:
  \<^verbatim>\<open>LineSearch.Wolfe\<close> (field \<^verbatim>\<open>lines\<close>), \<^verbatim>\<open>LineSolver.MinUpdateX\<close> (field
  \<^verbatim>\<open>lineb\<close>) and \<^verbatim>\<open>num.DerivCen5\<close>. For the latter, \<open>DerivCen5 x h f\<close> is the
  estimate returned and \<open>DerivCen5_calls x h f\<close> the arguments at which it calls \<open>f\<close>,
  in call order.\<close>

record Collab =
  Wolfe :: "Vector \<Rightarrow> Vector \<Rightarrow> bool \<Rightarrow> real \<Rightarrow> LineResult"
  MinUpdateX :: "Vector \<Rightarrow> Vector \<Rightarrow> LineResult"
  DerivCen5 :: "real \<Rightarrow> real \<Rightarrow> (real \<Rightarrow> real) \<Rightarrow> real"
  DerivCen5_calls :: "real \<Rightarrow> real \<Rightarrow> (real \<Rightarrow> real) \<Rightarrow> real list"

text \<open>The outcome of \<^verbatim>\<open>Min\<close>: a normal return of \<^verbatim>\<open>fmin\<close> or a panic, each with
  the optimizer and the caller's vector as the call leaves them.\<close>

datatype outcome =
    Return real ConjGrad Vector
  | Panic error ConjGrad Vector

text \<open>One pass through the loop body either leaves \<^verbatim>\<open>Min\<close> or falls through to the
  loop's post statement with the locals \<^verbatim>\<open>x, fx, fmin, fold\<close>.\<close>

datatype step =
    Exit outcome
  | Continue ConjGrad Vector real real real

subsection \<open>NewConjGrad\<close>

definition NewConjGrad :: "nat \<Rightarrow> (Vector \<Rightarrow> real) \<Rightarrow> (Vector \<Rightarrow> Vector) \<Rightarrow> ConjGrad" where
  "NewConjGrad n f J =
     \<lparr> MaxIt = 200, Ftol = 1 / 10 ^ 8, Gtol = 1 / 10 ^ 8, Verbose = False, History = False,
       UseBrent = False, UseFRmethod = False, CheckJfcn = False,
       NumFeval = 0, NumJeval = 0, NumIter = 0, Hist = None,
       size_n = n, tiny = 1 / 10 ^ 18, ffcn = f, jfcn = J,
       u = replicate n 0, g = replicate n 0, h = replicate n 0, tmp = replicate n 0 \<rparr>"

subsection \<open>checkJacobian\<close>

text \<open>One pass of the loop over \<open>k\<close>. The closure handed to \<^verbatim>\<open>DerivCen5\<close> copies
  \<open>x\<close> into \<open>tmp\<close>, overwrites entry \<open>k\<close>, counts one evaluation and evaluates the
  objective at \<open>tmp\<close>.\<close>

definition checkJacobian_k :: "Collab \<Rightarrow> Vector \<Rightarrow> ConjGrad \<Rightarrow> nat \<Rightarrow> (error \<times> ConjGrad) + ConjGrad" where
  "checkJacobian_k c x cg k =
     (let tolJ = 1 / 10 ^ 12;
          f = (\<lambda>xk. ffcn cg ((copy_go (tmp cg) x)[k := xk]));
          calls = DerivCen5_calls c (x ! k) (1 / 10 ^ 3) f;
          dfdxk = DerivCen5 c (x ! k) (1 / 10 ^ 3) f;
          cg = (if calls = [] then cg else cg\<lparr>tmp := (copy_go (tmp cg) x)[k := last calls]\<rparr>);
          cg = cg\<lparr>NumFeval := NumFeval cg + int (length calls)\<rparr>;
          diff = \<bar>u cg ! k - dfdxk\<bar>
      in if diff > tolJ then Inl (JacobianIncorrect diff, cg) else Inr cg)"

fun checkJacobian_loop :: "Collab \<Rightarrow> Vector \<Rightarrow> nat list \<Rightarrow> ConjGrad \<Rightarrow> (error \<times> ConjGrad) + ConjGrad" where
  "checkJacobian_loop c x [] cg = Inr cg"
| "checkJacobian_loop c x (k # ks) cg =
     (case checkJacobian_k c x cg k of
        Inl e \<Rightarrow> Inl e
      | Inr cg' \<Rightarrow> checkJacobian_loop c x ks cg')"

definition checkJacobian :: "Collab \<Rightarrow> ConjGrad \<Rightarrow> Vector \<Rightarrow> (error \<times> ConjGrad) + ConjGrad" where
  "checkJacobian c cg x = checkJacobian_loop c x [0..<size_n cg] cg"

subsection \<open>Min\<close>

definition linesearch :: "Collab \<Rightarrow> ConjGrad \<Rightarrow> Vector \<Rightarrow> Vector \<Rightarrow> bool \<Rightarrow> real \<Rightarrow> LineResult" where
  "linesearch c cg =
     (if UseBrent cg then (\<lambda>x uu dum1 dum2. MinUpdateX c x uu) else Wolfe c)"

text \<open>The loop of the initializations: \<open>u := -dy/dx\<close>, \<open>g := u\<close>, \<open>h := u\<close>.\<close>

definition init_directions :: "ConjGrad \<Rightarrow> ConjGrad" where
  "init_directions cg =
     foldl (\<lambda>cg j.
        let cg = cg\<lparr>u := (u cg)[j := - (u cg ! j)]\<rparr>;
            cg = cg\<lparr>g := (g cg)[j := u cg ! j]\<rparr>
        in cg\<lparr>h := (h cg)[j := u cg ! j]\<rparr>) cg [0..<size_n cg]"

text \<open>Everything before the loop, ending with the loop's init statement. The result is
  the optimizer and the locals \<^verbatim>\<open>x, fx, fmin, fold\<close> at the first loop test.\<close>

definition initializations :: "ConjGrad \<Rightarrow> Vector \<Rightarrow> ConjGrad \<times> Vector \<times> real \<times> real \<times> real" where
  "initializations cg x =
     (let fx = ffcn cg x;
          cg = cg\<lparr>u := jfcn cg x\<rparr>;
          cg = init_directions cg;
          cg = cg\<lparr>NumFeval := 1\<rparr>;
          cg = cg\<lparr>NumJeval := 1\<rparr>;
          fmin = fx;
          cg = (if History cg then cg\<lparr>Hist := Some (NewHistory (MaxIt cg) fmin x (ffcn cg))\<rparr> else cg);
          fold' = fx + Norm (u cg) / 2;
          cg = cg\<lparr>NumIter := 0\<rparr>
      in (cg, x, fx, fmin, fold'))"

text \<open>Line minimization with the counters and the history that follow it.\<close>

definition line_minimization :: "Collab \<Rightarrow> ConjGrad \<Rightarrow> Vector \<Rightarrow> real \<Rightarrow> ConjGrad \<times> Vector \<times> real" where
  "line_minimization c cg x fold' =
     (let r = linesearch c cg x (u cg) True fold';
          lam = lambda_ls r;
          fmin = fmin_ls r;
          x = x_ls r;
          cg = cg\<lparr>NumFeval := NumFeval cg + NumFeval_ls r\<rparr>;
          cg = cg\<lparr>NumJeval := NumJeval cg + NumJeval_ls r\<rparr>;
          cg = (if History cg
                then cg\<lparr>Hist := map_option (\<lambda>hh. Append hh fmin x (Apply lam (u cg))) (Hist cg)\<rparr>
                else cg)
      in (cg, x, fmin))"

text \<open>Exit point 2, the test on the function value.\<close>

definition converged_on_f :: "ConjGrad \<Rightarrow> real \<Rightarrow> real \<Rightarrow> bool" where
  "converged_on_f cg fmin fx \<longleftrightarrow>
     2 * \<bar>fmin - fx\<bar> \<le> Ftol cg * (\<bar>fmin\<bar> + \<bar>fx\<bar> + tiny cg)"

definition update_gradient :: "ConjGrad \<Rightarrow> Vector \<Rightarrow> ConjGrad" where
  "update_gradient cg x =
     (let cg = cg\<lparr>u := jfcn cg x\<rparr>
      in cg\<lparr>NumJeval := NumJeval cg + 1\<rparr>)"

text \<open>The test for convergence on zero gradient.\<close>

definition gradient_test :: "ConjGrad \<Rightarrow> Vector \<Rightarrow> real \<Rightarrow> real" where
  "gradient_test cg x fx =
     (let coef = Max_utl fx 1
      in foldl (\<lambda>test j.
           let temp = \<bar>u cg ! j\<bar> * Max_utl \<bar>x ! j\<bar> 1 / coef
           in if temp > test then temp else test) 0 [0..<size_n cg])"

text \<open>The numerator of the scaling factor; Polak-Ribiere writes the scratch vector.\<close>

definition scaling_numerator :: "ConjGrad \<Rightarrow> real \<times> ConjGrad" where
  "scaling_numerator cg =
     (if UseFRmethod cg then (VecDot (u cg) (u cg), cg)
      else
        let cg = cg\<lparr>tmp := VecAdd 1 (u cg) 1 (g cg)\<rparr>;
            nume = VecDot (tmp cg) (u cg);
            nume = Max_utl nume 0
        in (nume, cg))"

definition update_directions :: "ConjGrad \<Rightarrow> real \<Rightarrow> ConjGrad" where
  "update_directions cg \<gamma> =
     foldl (\<lambda>cg j.
        let cg = cg\<lparr>g := (g cg)[j := - (u cg ! j)]\<rparr>;
            cg = cg\<lparr>u := (u cg)[j := g cg ! j + \<gamma> * (h cg ! j)]\<rparr>
        in cg\<lparr>h := (h cg)[j := u cg ! j]\<rparr>) cg [0..<size_n cg]"

text \<open>The optional verification of the gradient: \<^verbatim>\<open>if o.CheckJfcn { o.checkJacobian(x) }\<close>.\<close>

definition check_gradient :: "Collab \<Rightarrow> ConjGrad \<Rightarrow> Vector \<Rightarrow> (error \<times> ConjGrad) + ConjGrad" where
  "check_gradient c cg x = (if CheckJfcn cg then checkJacobian c cg x else Inr cg)"

text \<open>The loop body.\<close>

definition body :: "Collab \<Rightarrow> ConjGrad \<Rightarrow> Vector \<Rightarrow> real \<Rightarrow> real \<Rightarrow> real \<Rightarrow> step" where
  "body c cg x fx fmin fold' =
     (let deno = VecDot (g cg) (g cg) in
      if \<bar>deno\<bar> < tiny cg then Exit (Return fmin cg x)
      else
        let (cg, x, fmin) = line_minimization c cg x fold';
            fold' = fx
        in if converged_on_f cg fmin fx then Exit (Return fmin cg x)
           else
             let fx = fmin;
                 cg = update_gradient cg x
             in case check_gradient c cg x of
                  Inl (e, cg) \<Rightarrow> Exit (Panic e cg x)
                | Inr cg \<Rightarrow>
                    (let test = gradient_test cg x fx in
                     if test < Gtol cg then Exit (Return fmin cg x)
                     else
                       let (nume, cg) = scaling_numerator cg;
                           \<gamma> = nume / deno;
                           cg = update_directions cg \<gamma>
                       in Continue cg x fx fmin fold'))"

text \<open>The loop \<^verbatim>\<open>for o.NumIter = 0; o.NumIter < o.MaxIt; o.NumIter++\<close>, entered after
  its init statement, and the panic that follows it.\<close>

function iterations :: "Collab \<Rightarrow> ConjGrad \<Rightarrow> Vector \<Rightarrow> real \<Rightarrow> real \<Rightarrow> real \<Rightarrow> outcome" where
  "iterations c cg x fx fmin fold' =
     (if NumIter cg < MaxIt cg then
        (case body c cg x fx fmin fold' of
           Exit out \<Rightarrow> out
         | Continue cg' x' fx' fmin' fold'' \<Rightarrow>
             iterations c (cg'\<lparr>NumIter := NumIter cg' + 1\<rparr>) x' fx' fmin' fold'')
      else Panic (FailToConverge (NumIter cg)) cg x)"
  by pat_completeness auto

definition Min :: "Collab \<Rightarrow> ConjGrad \<Rightarrow> Vector \<Rightarrow> outcome" where
  "Min c cg x =
     (case initializations cg x of
        (cg, x, fx, fmin, fold') \<Rightarrow> iterations c cg x fx fmin fold')"

subsection \<open>Notions used to state the properties\<close>

text \<open>The optimizer and the locals at the loop test that opens pass \<open>n\<close> of a call of
  \<^verbatim>\<open>Min\<close>, when the call gets that far.\<close>

fun loop_head :: "Collab \<Rightarrow> ConjGrad \<Rightarrow> Vector \<Rightarrow> nat \<Rightarrow> (ConjGrad \<times> Vector \<times> real \<times> real \<times> real) option" where
  "loop_head c cg0 x0 0 = Some (initializations cg0 x0)"
| "loop_head c cg0 x0 (Suc n) =
     (case loop_head c cg0 x0 n of
        None \<Rightarrow> None
      | Some (cg, x, fx, fmin, fold') \<Rightarrow>
          if NumIter cg < MaxIt cg then
            (case body c cg x fx fmin fold' of
               Exit out \<Rightarrow> None
             | Continue cg' x' fx' fmin' fold'' \<Rightarrow>
                 Some (cg'\<lparr>NumIter := NumIter cg' + 1\<rparr>, x', fx', fmin', fold''))
          else None)"

text \<open>What \<^verbatim>\<open>NewConjGrad\<close> establishes and the documented contract of the callers and
  collaborators: the small number is \<open>1e-18\<close>, the working vectors have the problem
  dimension, the gradient function fills a vector of that dimension, and a line search
  advances the point in place.\<close>

definition well_formed :: "Collab \<Rightarrow> ConjGrad \<Rightarrow> bool" where
  "well_formed c cg \<longleftrightarrow>
     tiny cg = 1 / 10 ^ 18 \<and>
     length (u cg) = size_n cg \<and> length (g cg) = size_n cg \<and>
     length (h cg) = size_n cg \<and> length (tmp cg) = size_n cg \<and>
     (\<forall>y. length y = size_n cg \<longrightarrow> length (jfcn cg y) = size_n cg) \<and>
     (\<forall>y v b f. length y = size_n cg \<longrightarrow> length (x_ls (Wolfe c y v b f)) = size_n cg) \<and>
     (\<forall>y v. length y = size_n cg \<longrightarrow> length (x_ls (MinUpdateX c y v)) = size_n cg)"

text \<open>The line searches report evaluation counts, which are not negative.\<close>

definition counts_nonneg :: "Collab \<Rightarrow> bool" where
  "counts_nonneg c \<longleftrightarrow>
     (\<forall>y v b f. 0 \<le> NumFeval_ls (Wolfe c y v b f) \<and> 0 \<le> NumJeval_ls (Wolfe c y v b f)) \<and>
     (\<forall>y v. 0 \<le> NumFeval_ls (MinUpdateX c y v) \<and> 0 \<le> NumJeval_ls (MinUpdateX c y v))"

text \<open>None of the three exit tests fires in a pass through the loop body, and the optional
  verification of the gradient does not abort it.\<close>

definition no_exit_condition :: "Collab \<Rightarrow> ConjGrad \<Rightarrow> Vector \<Rightarrow> real \<Rightarrow> real \<Rightarrow> bool" where
  "no_exit_condition c cg x fx fold' \<longleftrightarrow>
     \<not> \<bar>VecDot (g cg) (g cg)\<bar> < tiny cg \<and>
     (case line_minimization c cg x fold' of
        (cg1, x1, fmin1) \<Rightarrow>
          \<not> converged_on_f cg1 fmin1 fx \<and>
          (case check_gradient c (update_gradient cg1 x1) x1 of
             Inl e \<Rightarrow> False
           | Inr cg3 \<Rightarrow> \<not> gradient_test cg3 x1 fmin1 < Gtol cg3))"

text \<open>None of the three exit tests holds in a pass through the loop body: the squared
  norm of \<open>g\<close> is not below the small number, the function value has not converged after
  the line minimization, and the statistic of the gradient evaluated again at the new
  point is not below \<open>Gtol\<close>. (The verification of the gradient writes neither \<open>u\<close> nor
  \<open>Gtol\<close>, so the third test reads the same with or without it.)\<close>

definition no_exit_test :: "Collab \<Rightarrow> ConjGrad \<Rightarrow> Vector \<Rightarrow> real \<Rightarrow> real \<Rightarrow> bool" where
  "no_exit_test c cg x fx fold' \<longleftrightarrow>
     \<not> \<bar>VecDot (g cg) (g cg)\<bar> < tiny cg \<and>
     (case line_minimization c cg x fold' of
        (cg1, x1, fmin1) \<Rightarrow>
          \<not> converged_on_f cg1 fmin1 fx \<and>
          \<not> gradient_test (update_gradient cg1 x1) x1 fmin1 < Gtol (update_gradient cg1 x1))"

text \<open>No exit test holds in pass \<open>n\<close> of a call, when the call gets that far.\<close>

definition pass_no_exit :: "Collab \<Rightarrow> ConjGrad \<Rightarrow> Vector \<Rightarrow> nat \<Rightarrow> bool" where
  "pass_no_exit c cg0 x0 n =
     (case loop_head c cg0 x0 n of
        None \<Rightarrow> True
      | Some (cg, x, fx, fmin, fold') \<Rightarrow> no_exit_test c cg x fx fold')"

text \<open>The error a call panicked with, if it did.\<close>

fun panic_error :: "outcome \<Rightarrow> error option" where
  "panic_error (Return f cg x) = None"
| "panic_error (Panic e cg x) = Some e"

text \<open>The optimizer as a call leaves it.\<close>

fun outcome_cg :: "outcome \<Rightarrow> ConjGrad" where
  "outcome_cg (Return f cg x) = cg"
| "outcome_cg (Panic e cg x) = cg"

text \<open>Fields that no statement of \<^verbatim>\<open>Min\<close> or \<^verbatim>\<open>checkJacobian\<close> assigns.\<close>

definition same_params :: "ConjGrad \<Rightarrow> ConjGrad \<Rightarrow> bool" where
  "same_params cg cg' \<longleftrightarrow>
     MaxIt cg' = MaxIt cg \<and> Ftol cg' = Ftol cg \<and> Gtol cg' = Gtol cg \<and>
     Verbose cg' = Verbose cg \<and> History cg' = History cg \<and> UseBrent cg' = UseBrent cg \<and>
     UseFRmethod cg' = UseFRmethod cg \<and> CheckJfcn cg' = CheckJfcn cg \<and>
     size_n cg' = size_n cg \<and> tiny cg' = tiny cg \<and>
     ffcn cg' = ffcn cg \<and> jfcn cg' = jfcn cg"

definition same_config :: "ConjGrad \<Rightarrow> ConjGrad \<Rightarrow> bool" where
  "same_config cg cg' \<longleftrightarrow> same_params cg cg' \<and> NumIter cg' = NumIter cg"


text \<open>Neither evaluation counter of the second optimizer is below that of the first.\<close>

definition counters_le :: "ConjGrad \<Rightarrow> ConjGrad \<Rightarrow> bool" where
  "counters_le cg cg' \<longleftrightarrow> NumFeval cg \<le> NumFeval cg' \<and> NumJeval cg \<le> NumJeval cg'"

text \<open>The difference \<^verbatim>\<open>checkJacobian\<close> computes for coordinate \<open>k\<close> when the scratch vector
  is as long as \<open>x\<close>, so that \<^verbatim>\<open>copy\<close> fills it with \<open>x\<close>.\<close>

definition Jacobian_deviation :: "Collab \<Rightarrow> ConjGrad \<Rightarrow> Vector \<Rightarrow> nat \<Rightarrow> real" where
  "Jacobian_deviation c cg x k =
     \<bar>u cg ! k - DerivCen5 c (x ! k) (1 / 10 ^ 3) (\<lambda>xk. ffcn cg (x[k := xk]))\<bar>"

text \<open>Whether a call ended with a \<^verbatim>\<open>return\<close> rather than a panic.\<close>

fun returns_normally :: "outcome \<Rightarrow> bool" where
  "returns_normally (Return f cg x) = True"
| "returns_normally (Panic e cg x) = False"

text \<open>The only fields \<^verbatim>\<open>checkJacobian\<close> writes are the scratch vector and the
  counter of function evaluations, which the closure increments.\<close>

definition only_scratch :: "ConjGrad \<Rightarrow> ConjGrad \<Rightarrow> bool" where
  "only_scratch cg cg' \<longleftrightarrow>
     (\<exists>t n. cg' = cg\<lparr>tmp := t, NumFeval := n\<rparr> \<and> length t = length (tmp cg) \<and> NumFeval cg \<le> n)"

subsection \<open>A one-dimensional example\<close>

text \<open>The objective \<open>f(x) = x\<^sup>2\<close> with its gradient, a line search that halves the
  point, one that jumps to the minimum, and a two-point difference quotient. They serve to
  run the definitions on concrete inputs.\<close>

definition ex_ffcn :: "Vector \<Rightarrow> real" where
  "ex_ffcn x = (x ! 0) * (x ! 0)"

definition ex_jfcn :: "Vector \<Rightarrow> Vector" where
  "ex_jfcn x = [2 * (x ! 0)]"

definition ex_collab :: Collab where
  "ex_collab =
     \<lparr> Wolfe = (\<lambda>x uu b f.
         \<lparr> lambda_ls = 1 / 4, fmin_ls = (x ! 0 / 2) * (x ! 0 / 2), x_ls = [x ! 0 / 2],
           NumFeval_ls = 2, NumJeval_ls = 1 \<rparr>),
       MinUpdateX = (\<lambda>x uu.
         \<lparr> lambda_ls = 1 / 2, fmin_ls = 0, x_ls = [0], NumFeval_ls = 5, NumJeval_ls = 0 \<rparr>),
       DerivCen5 = (\<lambda>x h f. (f (x + h) - f (x - h)) / (2 * h)),
       DerivCen5_calls = (\<lambda>x h f. [x + h, x - h]) \<rparr>"

definition ex_wrong_jfcn :: "Vector \<Rightarrow> Vector" where
  "ex_wrong_jfcn x = [3 * (x ! 0)]"

definition ex_cg :: ConjGrad where
  "ex_cg = NewConjGrad 1 ex_ffcn ex_jfcn"

section \<open>Lemmas\<close>

subsection \<open>Fields no statement assigns, and termination of the loop\<close>

lemma same_config_refl: "same_config cg cg"
  by (simp add: same_config_def same_params_def)

lemma same_config_trans: "same_config a b \<Longrightarrow> same_config b c \<Longrightarrow> same_config a c"
  by (simp add: same_config_def same_params_def)

lemma foldl_same_config:
  "(\<And>a j. same_config a (f a j)) \<Longrightarrow> same_config cg (foldl f cg js)"
proof (induction js arbitrary: cg)
  case Nil
  show ?case by (simp add: same_config_refl)
next
  case (Cons j js)
  have "same_config cg (f cg j)" by (rule Cons.prems)
  moreover have "same_config (f cg j) (foldl f (f cg j) js)"
    by (rule Cons.IH) (rule Cons.prems)
  ultimately show ?case by (simp add: same_config_trans)
qed

lemma init_directions_config: "same_config cg (init_directions cg)"
  unfolding init_directions_def
  by (rule foldl_same_config) (simp add: same_config_def same_params_def Let_def)

lemma update_directions_config: "same_config cg (update_directions cg \<gamma>)"
  unfolding update_directions_def
  by (rule foldl_same_config) (simp add: same_config_def same_params_def Let_def)

lemma line_minimization_config:
  "line_minimization c cg x f = (cg', x', fm) \<Longrightarrow> same_config cg cg'"
  by (auto simp: line_minimization_def Let_def same_config_def same_params_def split: if_splits)

lemma update_gradient_config: "same_config cg (update_gradient cg x)"
  by (simp add: update_gradient_def Let_def same_config_def same_params_def)

lemma scaling_numerator_config: "scaling_numerator cg = (n, cg') \<Longrightarrow> same_config cg cg'"
  by (auto simp: scaling_numerator_def Let_def same_config_def same_params_def split: if_splits)

lemma checkJacobian_k_config:
  "checkJacobian_k c x cg k = Inr cg' \<Longrightarrow> same_config cg cg'"
  "checkJacobian_k c x cg k = Inl (e, cg') \<Longrightarrow> same_config cg cg'"
  by (auto simp: checkJacobian_k_def Let_def same_config_def same_params_def split: if_splits)

lemma checkJacobian_loop_config:
  "checkJacobian_loop c x ks cg = Inr cg' \<Longrightarrow> same_config cg cg'"
  "checkJacobian_loop c x ks cg = Inl (e, cg') \<Longrightarrow> same_config cg cg'"
proof (induction ks arbitrary: cg)
  case Nil
  { case 1 then show ?case by (simp add: same_config_refl) }
  { case 2 then show ?case by simp }
next
  case (Cons k ks)
  { case 1 then show ?case
      by (auto split: sum.splits intro: same_config_trans checkJacobian_k_config Cons.IH(1)) }
  { case 2 then show ?case
      by (auto split: sum.splits intro: same_config_trans checkJacobian_k_config Cons.IH(2)) }
qed

lemma checkJacobian_config:
  "checkJacobian c cg x = Inr cg' \<Longrightarrow> same_config cg cg'"
  "checkJacobian c cg x = Inl (e, cg') \<Longrightarrow> same_config cg cg'"
  unfolding checkJacobian_def by (erule checkJacobian_loop_config)+

lemma body_ContinueE:
  assumes "body c cg x fx fmin fold' = Continue cg' x' fx' fmin' fold''"
  obtains cg1 cg3 nume cg4 where
    "\<not> \<bar>VecDot (g cg) (g cg)\<bar> < tiny cg"
    "line_minimization c cg x fold' = (cg1, x', fmin')"
    "\<not> converged_on_f cg1 fmin' fx"
    "fx' = fmin'" "fold'' = fx"
    "check_gradient c (update_gradient cg1 x') x'  = Inr cg3"
    "\<not> gradient_test cg3 x' fmin' < Gtol cg3"
    "scaling_numerator cg3 = (nume, cg4)"
    "cg' = update_directions cg4 (nume / VecDot (g cg) (g cg))"
proof -
  let ?deno = "VecDot (g cg) (g cg)"
  obtain cg1 x1 fmin1 where lm: "line_minimization c cg x fold' = (cg1, x1, fmin1)"
    by (cases "line_minimization c cg x fold'") auto
  let ?cg2 = "update_gradient cg1 x1"
  let ?chk = "check_gradient c ?cg2 x1"
  have e1: "\<not> \<bar>?deno\<bar> < tiny cg"
    using assms by (auto simp: body_def Let_def)
  have e2: "\<not> converged_on_f cg1 fmin1 fx"
    using assms e1 lm by (auto simp: body_def Let_def)
  obtain cg3 where chk: "?chk = Inr cg3"
  proof (cases ?chk)
    case (Inl p)
    then show ?thesis using assms e1 e2 lm
      by (cases p) (simp add: body_def Let_def)
  next
    case (Inr q)
    then show ?thesis using that by blast
  qed
  have e3: "\<not> gradient_test cg3 x1 fmin1 < Gtol cg3"
    using assms e1 e2 lm chk by (auto simp: body_def Let_def)
  obtain nume cg4 where sn: "scaling_numerator cg3 = (nume, cg4)"
    by (cases "scaling_numerator cg3") auto
  have "body c cg x fx fmin fold' =
      Continue (update_directions cg4 (nume / ?deno)) x1 fmin1 fmin1 fx"
    using e1 e2 lm chk e3 sn by (simp add: body_def Let_def)
  with assms have eqs: "cg' = update_directions cg4 (nume / ?deno)" "x' = x1" "fx' = fmin1"
    "fmin' = fmin1" "fold'' = fx" by simp_all
  show ?thesis
    by (rule that [of cg1 cg3 nume cg4]) (simp_all add: e1 e2 lm chk e3 sn eqs)
qed

lemma body_Continue_config:
  assumes "body c cg x fx fmin fold' = Continue cg' x' fx' fmin' fold''"
  shows "same_config cg cg'"
proof -
  from assms obtain cg1 cg3 nume cg4 where
    lm: "line_minimization c cg x fold' = (cg1, x', fmin')" and
    cj: "check_gradient c (update_gradient cg1 x') x'  = Inr cg3" and
    sn: "scaling_numerator cg3 = (nume, cg4)" and
    ud: "cg' = update_directions cg4 (nume / VecDot (g cg) (g cg))"
    by (rule body_ContinueE)
  have 1: "same_config cg cg1" using lm by (rule line_minimization_config)
  have 2: "same_config cg1 (update_gradient cg1 x')" by (rule update_gradient_config)
  have 3: "same_config (update_gradient cg1 x') cg3"
    using cj by (auto simp: check_gradient_def split: if_splits intro: checkJacobian_config same_config_refl)
  have 4: "same_config cg3 cg4" using sn by (rule scaling_numerator_config)
  have 5: "same_config cg4 cg'" unfolding ud by (rule update_directions_config)
  from 1 2 3 4 5 show ?thesis by (blast intro: same_config_trans)
qed

termination iterations
proof (relation "measure (\<lambda>(c, cg, x, fx, fmin, fold'). nat (MaxIt cg - NumIter cg))")
  show "wf (measure (\<lambda>(c, cg, x, fx, fmin, fold'). nat (MaxIt cg - NumIter cg)))" by simp
next
  fix c cg x fx fmin fold' cg' x' fx' fmin' fold''
  assume lt: "NumIter cg < MaxIt cg"
    and b: "body c cg x fx fmin fold' = Continue cg' x' fx' fmin' fold''"
  from b have "same_config cg cg'" by (rule body_Continue_config)
  then have "MaxIt cg' = MaxIt cg" "NumIter cg' = NumIter cg"
    by (simp_all add: same_config_def same_params_def)
  with lt show "((c, cg'\<lparr>NumIter := NumIter cg' + 1\<rparr>, x', fx', fmin', fold''), (c, cg, x, fx, fmin, fold'))
      \<in> measure (\<lambda>(c, cg, x, fx, fmin, fold'). nat (MaxIt cg - NumIter cg))"
    by simp
qed

declare iterations.simps [simp del]

subsection \<open>The initializations and the loops over the coordinates\<close>

lemma initializations_facts:
  assumes "initializations cg x = (cgi, xi, fxi, fmini, foldi)"
  shows "same_params cg cgi" "NumIter cgi = 0" "NumFeval cgi = 1" "NumJeval cgi = 1"
    "xi = x" "fxi = ffcn cg x" "fmini = ffcn cg x"
proof -
  let ?cg1 = "init_directions (cg\<lparr>u := jfcn cg x\<rparr>)"
  have sc: "same_config (cg\<lparr>u := jfcn cg x\<rparr>) ?cg1" by (rule init_directions_config)
  have cgi: "cgi = (if History ?cg1
       then ?cg1\<lparr>NumFeval := 1, NumJeval := 1,
              Hist := Some (NewHistory (MaxIt ?cg1) (ffcn cg x) x (ffcn ?cg1)), NumIter := 0\<rparr>
       else ?cg1\<lparr>NumFeval := 1, NumJeval := 1, NumIter := 0\<rparr>)"
    using assms by (auto simp: initializations_def Let_def split: if_splits)
  show "same_params cg cgi" using sc unfolding cgi
    by (simp add: same_config_def same_params_def)
  show "NumIter cgi = 0" "NumFeval cgi = 1" "NumJeval cgi = 1" unfolding cgi by simp_all
  show "xi = x" "fxi = ffcn cg x" "fmini = ffcn cg x"
    using assms by (auto simp: initializations_def Let_def)
qed

lemma prefix_update:
  "k < n \<Longrightarrow> v = a k \<Longrightarrow> (map (\<lambda>i. if i < k then a i else b i) [0..<n])[k := v]
     = map (\<lambda>i. if i < Suc k then a i else b i) [0..<n]"
  by (rule nth_equalityI) (auto simp: nth_list_update less_Suc_eq)

lemma prefix_full:
  "length w = n \<Longrightarrow> map (\<lambda>i. if i < n then f (w ! i) else b i) [0..<n] = map f w"
  by (rule nth_equalityI) simp_all

lemma prefix_full2:
  "length w = n \<Longrightarrow> length v = n \<Longrightarrow>
   map (\<lambda>i. if i < n then f (w ! i) (v ! i) else b i) [0..<n] = map2 f w v"
  by (rule nth_equalityI) simp_all

lemma init_directions_step:
  assumes "U[k := - (U ! k)] = U'" and "G[k := U' ! k] = G'" and "H[k := U' ! k] = H'"
  shows "(\<lambda>cg j.
        let cg = cg\<lparr>u := (u cg)[j := - (u cg ! j)]\<rparr>;
            cg = cg\<lparr>g := (g cg)[j := u cg ! j]\<rparr>
        in cg\<lparr>h := (h cg)[j := u cg ! j]\<rparr>) (cg\<lparr>u := U, g := G, h := H\<rparr>) k
      = cg\<lparr>u := U', g := G', h := H'\<rparr>"
  by (simp add: Let_def assms)

lemma init_directions_prefix:
  assumes "length (u cg) = n" "length (g cg) = n" "length (h cg) = n" "k \<le> n"
  shows "foldl (\<lambda>cg j.
        let cg = cg\<lparr>u := (u cg)[j := - (u cg ! j)]\<rparr>;
            cg = cg\<lparr>g := (g cg)[j := u cg ! j]\<rparr>
        in cg\<lparr>h := (h cg)[j := u cg ! j]\<rparr>) cg [0..<k]
     = cg\<lparr>u := map (\<lambda>i. if i < k then - (u cg ! i) else u cg ! i) [0..<n],
           g := map (\<lambda>i. if i < k then - (u cg ! i) else g cg ! i) [0..<n],
           h := map (\<lambda>i. if i < k then - (u cg ! i) else h cg ! i) [0..<n]\<rparr>"
    (is "foldl ?step cg [0..<k] = ?P k")
  using assms(4)
proof (induction k)
  case 0
  have "map ((!) (u cg)) [0..<n] = u cg" "map ((!) (g cg)) [0..<n] = g cg"
    "map ((!) (h cg)) [0..<n] = h cg"
    using map_nth [of "u cg"] map_nth [of "g cg"] map_nth [of "h cg"]
    by (simp_all only: assms(1-3))
  then show ?case by simp
next
  case (Suc k)
  from Suc.prems have k: "k < n" and k': "k \<le> n" by simp_all
  have ih: "foldl ?step cg [0..<k] = ?P k" by (rule Suc.IH [OF k'])
  let ?U = "\<lambda>k. map (\<lambda>i. if i < k then - (u cg ! i) else u cg ! i) [0..<n]"
  let ?G = "\<lambda>k. map (\<lambda>i. if i < k then - (u cg ! i) else g cg ! i) [0..<n]"
  let ?H = "\<lambda>k. map (\<lambda>i. if i < k then - (u cg ! i) else h cg ! i) [0..<n]"
  have u1: "(?U k)[k := - (?U k ! k)] = ?U (Suc k)"
    by (rule prefix_update [OF k]) (simp add: k)
  have g1: "(?G k)[k := ?U (Suc k) ! k] = ?G (Suc k)"
    by (rule prefix_update [OF k]) (simp add: k)
  have h1: "(?H k)[k := ?U (Suc k) ! k] = ?H (Suc k)"
    by (rule prefix_update [OF k]) (simp add: k)
  have "foldl ?step cg [0..<Suc k] = ?step (?P k) k"
    by (simp only: upt_Suc_append [OF le0] foldl_append foldl.simps ih)
  also have "\<dots> = ?P (Suc k)"
    by (rule init_directions_step [OF u1 g1 h1])
  finally show ?case .
qed

lemma init_directions_eq:
  assumes "length (u cg) = size_n cg" "length (g cg) = size_n cg" "length (h cg) = size_n cg"
  shows "init_directions cg = cg\<lparr>u := map uminus (u cg), g := map uminus (u cg), h := map uminus (u cg)\<rparr>"
  unfolding init_directions_def
  by (subst init_directions_prefix [OF assms order_refl])
     (simp only: prefix_full [OF assms(1), of uminus])

lemma update_directions_step:
  assumes "G[k := - (U ! k)] = G'" and "U[k := G' ! k + \<gamma> * (H ! k)] = U'" and "H[k := U' ! k] = H'"
  shows "(\<lambda>cg j.
        let cg = cg\<lparr>g := (g cg)[j := - (u cg ! j)]\<rparr>;
            cg = cg\<lparr>u := (u cg)[j := g cg ! j + \<gamma> * (h cg ! j)]\<rparr>
        in cg\<lparr>h := (h cg)[j := u cg ! j]\<rparr>) (cg\<lparr>g := G, u := U, h := H\<rparr>) k
      = cg\<lparr>g := G', u := U', h := H'\<rparr>"
  by (simp add: Let_def assms)

lemma update_directions_prefix:
  assumes "length (u cg) = n" "length (g cg) = n" "length (h cg) = n" "k \<le> n"
  shows "foldl (\<lambda>cg j.
        let cg = cg\<lparr>g := (g cg)[j := - (u cg ! j)]\<rparr>;
            cg = cg\<lparr>u := (u cg)[j := g cg ! j + \<gamma> * (h cg ! j)]\<rparr>
        in cg\<lparr>h := (h cg)[j := u cg ! j]\<rparr>) cg [0..<k]
     = cg\<lparr>g := map (\<lambda>i. if i < k then - (u cg ! i) else g cg ! i) [0..<n],
           u := map (\<lambda>i. if i < k then - (u cg ! i) + \<gamma> * (h cg ! i) else u cg ! i) [0..<n],
           h := map (\<lambda>i. if i < k then - (u cg ! i) + \<gamma> * (h cg ! i) else h cg ! i) [0..<n]\<rparr>"
    (is "foldl ?step cg [0..<k] = ?P k")
  using assms(4)
proof (induction k)
  case 0
  have "map ((!) (u cg)) [0..<n] = u cg" "map ((!) (g cg)) [0..<n] = g cg"
    "map ((!) (h cg)) [0..<n] = h cg"
    using map_nth [of "u cg"] map_nth [of "g cg"] map_nth [of "h cg"]
    by (simp_all only: assms(1-3))
  then show ?case by simp
next
  case (Suc k)
  from Suc.prems have k: "k < n" and k': "k \<le> n" by simp_all
  have ih: "foldl ?step cg [0..<k] = ?P k" by (rule Suc.IH [OF k'])
  let ?G = "\<lambda>k. map (\<lambda>i. if i < k then - (u cg ! i) else g cg ! i) [0..<n]"
  let ?U = "\<lambda>k. map (\<lambda>i. if i < k then - (u cg ! i) + \<gamma> * (h cg ! i) else u cg ! i) [0..<n]"
  let ?H = "\<lambda>k. map (\<lambda>i. if i < k then - (u cg ! i) + \<gamma> * (h cg ! i) else h cg ! i) [0..<n]"
  have g1: "(?G k)[k := - (?U k ! k)] = ?G (Suc k)"
    by (rule prefix_update [OF k]) (simp add: k)
  have u1: "(?U k)[k := ?G (Suc k) ! k + \<gamma> * (?H k ! k)] = ?U (Suc k)"
    by (rule prefix_update [OF k]) (simp add: k)
  have h1: "(?H k)[k := ?U (Suc k) ! k] = ?H (Suc k)"
    by (rule prefix_update [OF k]) (simp add: k)
  have "foldl ?step cg [0..<Suc k] = ?step (?P k) k"
    by (simp only: upt_Suc_append [OF le0] foldl_append foldl.simps ih)
  also have "\<dots> = ?P (Suc k)"
    by (rule update_directions_step [OF g1 u1 h1])
  finally show ?case .
qed

lemma update_directions_eq:
  assumes "length (u cg) = size_n cg" "length (g cg) = size_n cg" "length (h cg) = size_n cg"
  shows "update_directions cg \<gamma> =
     cg\<lparr>g := map uminus (u cg),
        u := map2 (\<lambda>a b. - a + \<gamma> * b) (u cg) (h cg),
        h := map2 (\<lambda>a b. - a + \<gamma> * b) (u cg) (h cg)\<rparr>"
  unfolding update_directions_def
  by (subst update_directions_prefix [OF assms order_refl])
     (simp only: prefix_full [OF assms(1), of uminus]
        prefix_full2 [OF assms(1) assms(3), of "\<lambda>a b. - a + \<gamma> * b"])

subsection \<open>The loop body, the loop and its outcome\<close>

lemma body_eq:
  assumes lm: "line_minimization c cg x fold' = (cg1, x1, fmin1)"
  shows "body c cg x fx fmin fold' =
     (if \<bar>VecDot (g cg) (g cg)\<bar> < tiny cg then Exit (Return fmin cg x)
      else if converged_on_f cg1 fmin1 fx then Exit (Return fmin1 cg1 x1)
      else case check_gradient c (update_gradient cg1 x1) x1 of
             Inl (e, cgp) \<Rightarrow> Exit (Panic e cgp x1)
           | Inr cg3 \<Rightarrow>
               if gradient_test cg3 x1 fmin1 < Gtol cg3 then Exit (Return fmin1 cg3 x1)
               else case scaling_numerator cg3 of
                      (nume, cg4) \<Rightarrow>
                        Continue (update_directions cg4 (nume / VecDot (g cg) (g cg))) x1 fmin1 fmin1 fx)"
  by (simp add: body_def Let_def lm split: sum.splits prod.splits)

lemma check_gradient_config:
  "check_gradient c cg x = Inr cg' \<Longrightarrow> same_config cg cg'"
  "check_gradient c cg x = Inl (e, cg') \<Longrightarrow> same_config cg cg'"
  by (auto simp: check_gradient_def split: if_splits intro: checkJacobian_config same_config_refl)

lemma body_Exit_config:
  assumes "body c cg x fx fmin fold' = Exit out"
  shows "same_config cg (outcome_cg out)"
proof -
  obtain cg1 x1 fmin1 where lm: "line_minimization c cg x fold' = (cg1, x1, fmin1)"
    by (cases "line_minimization c cg x fold'") auto
  have 1: "same_config cg cg1" using lm by (rule line_minimization_config)
  have 2: "same_config cg1 (update_gradient cg1 x1)" by (rule update_gradient_config)
  have 12: "same_config cg (update_gradient cg1 x1)" using 1 2 by (rule same_config_trans)
  show ?thesis
  proof (cases "check_gradient c (update_gradient cg1 x1) x1")
    case (Inl p)
    obtain e cgp where p: "p = (e, cgp)" by (cases p) auto
    have "same_config cg cgp"
      using 12 check_gradient_config(2) [OF Inl [unfolded p]] by (rule same_config_trans)
    then show ?thesis using assms 1
      by (auto simp: body_eq [OF lm] Inl p same_config_refl split: if_splits)
  next
    case (Inr cg3)
    have "same_config cg cg3"
      using 12 check_gradient_config(1) [OF Inr] by (rule same_config_trans)
    then show ?thesis using assms 1
      by (auto simp: body_eq [OF lm] Inr same_config_refl split: if_splits prod.splits)
  qed
qed

lemma iterations_NumIter:
  "NumIter cg \<le> NumIter (outcome_cg (iterations c cg x fx fmin fold'))"
proof (induction c cg x fx fmin fold' rule: iterations.induct)
  case (1 c cg x fx fmin fold')
  show ?case
  proof (cases "NumIter cg < MaxIt cg")
    case False
    then show ?thesis by (subst iterations.simps) simp
  next
    case True
    show ?thesis
    proof (cases "body c cg x fx fmin fold'")
      case (Exit out)
      then show ?thesis using True body_Exit_config [OF Exit]
        by (subst iterations.simps) (simp add: same_config_def)
    next
      case (Continue cg' x' fx' fmin' fold'')
      have "NumIter cg' = NumIter cg"
        using body_Continue_config [OF Continue] by (simp add: same_config_def)
      then show ?thesis using True Continue "1.IH" [OF True Continue]
        by (subst iterations.simps) simp
    qed
  qed
qed

lemma iterations_Exit:
  "NumIter cg < MaxIt cg \<Longrightarrow> body c cg x fx fmin fold' = Exit out \<Longrightarrow>
   iterations c cg x fx fmin fold' = out"
  by (subst iterations.simps) simp

lemma iterations_Continue_NumIter:
  assumes "NumIter cg < MaxIt cg" "body c cg x fx fmin fold' = Continue cg' x' fx' fmin' fold''"
  shows "NumIter cg < NumIter (outcome_cg (iterations c cg x fx fmin fold'))"
proof -
  have "NumIter cg' = NumIter cg"
    using body_Continue_config [OF assms(2)] by (simp add: same_config_def)
  moreover have "NumIter (cg'\<lparr>NumIter := NumIter cg' + 1\<rparr>)
      \<le> NumIter (outcome_cg (iterations c (cg'\<lparr>NumIter := NumIter cg' + 1\<rparr>) x' fx' fmin' fold''))"
    by (rule iterations_NumIter)
  ultimately show ?thesis using assms by (subst iterations.simps) simp
qed

subsection \<open>What checkJacobian and the line minimization write\<close>

lemma only_scratch_refl: "only_scratch cg cg"
  unfolding only_scratch_def
  by (rule exI [of _ "tmp cg"], rule exI [of _ "NumFeval cg"]) simp

lemma only_scratch_trans:
  assumes "only_scratch a b" "only_scratch b d"
  shows "only_scratch a d"
proof -
  from assms(1) obtain t n where b: "b = a\<lparr>tmp := t, NumFeval := n\<rparr>"
    and l: "length t = length (tmp a)" and n: "NumFeval a \<le> n"
    unfolding only_scratch_def by blast
  from assms(2) obtain t' n' where d: "d = b\<lparr>tmp := t', NumFeval := n'\<rparr>"
    and l': "length t' = length (tmp b)" and n': "NumFeval b \<le> n'"
    unfolding only_scratch_def by blast
  have "d = a\<lparr>tmp := t', NumFeval := n'\<rparr>" unfolding d b by simp
  moreover have "length t' = length (tmp a)" using l l' b by simp
  moreover have "NumFeval a \<le> n'" using n n' b by simp
  ultimately show ?thesis unfolding only_scratch_def by blast
qed

lemma only_scratch_fields:
  assumes "only_scratch cg cg'"
  shows "u cg' = u cg" "g cg' = g cg" "h cg' = h cg" "NumJeval cg' = NumJeval cg"
    "Hist cg' = Hist cg" "same_config cg cg'" "length (tmp cg') = length (tmp cg)"
    "NumFeval cg \<le> NumFeval cg'"
  using assms unfolding only_scratch_def same_config_def same_params_def by auto

lemma checkJacobian_k_scratch:
  "checkJacobian_k c x cg k = Inr cg' \<Longrightarrow> only_scratch cg cg'"
  "checkJacobian_k c x cg k = Inl (e, cg') \<Longrightarrow> only_scratch cg cg'"
proof -
  let ?f = "\<lambda>xk. ffcn cg ((copy_go (tmp cg) x)[k := xk])"
  let ?calls = "DerivCen5_calls c (x ! k) (1 / 10 ^ 3) ?f"
  let ?t = "if ?calls = [] then tmp cg else (copy_go (tmp cg) x)[k := last ?calls]"
  let ?cg = "cg\<lparr>tmp := ?t, NumFeval := NumFeval cg + int (length ?calls)\<rparr>"
  have len: "length (copy_go (tmp cg) x) = length (tmp cg)"
    by (simp add: copy_go_def)
  have os: "only_scratch cg ?cg"
    unfolding only_scratch_def
    by (rule exI [of _ ?t], rule exI [of _ "NumFeval cg + int (length ?calls)"]) (simp add: len)
  have res: "checkJacobian_k c x cg k = Inr cg' \<or> checkJacobian_k c x cg k = Inl (e, cg')
      \<Longrightarrow> cg' = ?cg"
    by (auto simp: checkJacobian_k_def Let_def split: if_splits)
  show "checkJacobian_k c x cg k = Inr cg' \<Longrightarrow> only_scratch cg cg'"
    using res os by simp
  show "checkJacobian_k c x cg k = Inl (e, cg') \<Longrightarrow> only_scratch cg cg'"
    using res os by simp
qed

lemma checkJacobian_loop_scratch:
  "checkJacobian_loop c x ks cg = Inr cg' \<or> checkJacobian_loop c x ks cg = Inl (e, cg')
     \<Longrightarrow> only_scratch cg cg'"
proof (induction ks arbitrary: cg)
  case Nil
  then show ?case by (simp add: only_scratch_refl)
next
  case (Cons k ks)
  show ?case
  proof (cases "checkJacobian_k c x cg k")
    case (Inl p)
    with Cons.prems have "checkJacobian_k c x cg k = Inl (e, cg')" by simp
    then show ?thesis by (rule checkJacobian_k_scratch)
  next
    case (Inr cg1)
    then have 1: "only_scratch cg cg1" by (rule checkJacobian_k_scratch)
    from Cons.prems Inr have "checkJacobian_loop c x ks cg1 = Inr cg'
        \<or> checkJacobian_loop c x ks cg1 = Inl (e, cg')" by simp
    then have "only_scratch cg1 cg'" by (rule Cons.IH)
    with 1 show ?thesis by (rule only_scratch_trans)
  qed
qed

lemma check_gradient_scratch:
  "check_gradient c cg x = Inr cg' \<Longrightarrow> only_scratch cg cg'"
  "check_gradient c cg x = Inl (e, cg') \<Longrightarrow> only_scratch cg cg'"
  using checkJacobian_loop_scratch [of c x "[0..<size_n cg]" cg cg' e]
  by (auto simp: check_gradient_def checkJacobian_def only_scratch_refl split: if_splits)

lemma line_minimization_eq:
  "line_minimization c cg x fold' =
     (cg\<lparr>NumFeval := NumFeval cg + NumFeval_ls (linesearch c cg x (u cg) True fold'),
         NumJeval := NumJeval cg + NumJeval_ls (linesearch c cg x (u cg) True fold'),
         Hist := (if History cg
                  then map_option (\<lambda>hh. Append hh (fmin_ls (linesearch c cg x (u cg) True fold'))
                         (x_ls (linesearch c cg x (u cg) True fold'))
                         (Apply (lambda_ls (linesearch c cg x (u cg) True fold')) (u cg))) (Hist cg)
                  else Hist cg)\<rparr>,
      x_ls (linesearch c cg x (u cg) True fold'),
      fmin_ls (linesearch c cg x (u cg) True fold'))"
  by (simp add: line_minimization_def Let_def)

subsection \<open>The loop tests of a call\<close>

lemma loop_head_SucE:
  assumes "loop_head c cg0 x0 (Suc n) = Some (cg', x', fx', fmin', fold'')"
  obtains cg x fx fmin fold' cgb where
    "loop_head c cg0 x0 n = Some (cg, x, fx, fmin, fold')"
    "NumIter cg < MaxIt cg"
    "body c cg x fx fmin fold' = Continue cgb x' fx' fmin' fold''"
    "cg' = cgb\<lparr>NumIter := NumIter cgb + 1\<rparr>"
proof -
  from assms obtain s where s: "loop_head c cg0 x0 n = Some s"
    by (cases "loop_head c cg0 x0 n") auto
  obtain cg x fx fmin fold' where sv: "s = (cg, x, fx, fmin, fold')"
    by (cases s) auto
  from assms s sv have lt: "NumIter cg < MaxIt cg"
    by (auto split: if_splits)
  from assms s sv lt obtain cgb where
    "body c cg x fx fmin fold' = Continue cgb x' fx' fmin' fold''"
    "cg' = cgb\<lparr>NumIter := NumIter cgb + 1\<rparr>"
    by (cases "body c cg x fx fmin fold'") auto
  with s sv lt show ?thesis using that by blast
qed

lemma loop_head_iterations:
  "loop_head c cg0 x0 n = Some (cg, x, fx, fmin, fold') \<Longrightarrow>
   iterations c cg x fx fmin fold' = Min c cg0 x0"
proof (induction n arbitrary: cg x fx fmin fold')
  case 0
  then show ?case by (simp add: Min_def)
next
  case (Suc n)
  from Suc.prems obtain cga xa fxa fmina folda cgb where
    a: "loop_head c cg0 x0 n = Some (cga, xa, fxa, fmina, folda)" and
    lt: "NumIter cga < MaxIt cga" and
    b: "body c cga xa fxa fmina folda = Continue cgb x fx fmin fold'" and
    e: "cg = cgb\<lparr>NumIter := NumIter cgb + 1\<rparr>"
    by (rule loop_head_SucE)
  have "iterations c cga xa fxa fmina folda = iterations c cg x fx fmin fold'"
    using lt b e by (subst iterations.simps) simp
  with Suc.IH [OF a] show ?case by simp
qed

lemma loop_head_params:
  "loop_head c cg0 x0 n = Some (cg, x, fx, fmin, fold') \<Longrightarrow>
   same_params cg0 cg \<and> NumIter cg = int n"
proof (induction n arbitrary: cg x fx fmin fold')
  case 0
  then show ?case using initializations_facts [of cg0 x0 cg x fx fmin fold'] by simp
next
  case (Suc n)
  from Suc.prems obtain cga xa fxa fmina folda cgb where
    a: "loop_head c cg0 x0 n = Some (cga, xa, fxa, fmina, folda)" and
    b: "body c cga xa fxa fmina folda = Continue cgb x fx fmin fold'" and
    e: "cg = cgb\<lparr>NumIter := NumIter cgb + 1\<rparr>"
    by (rule loop_head_SucE)
  from Suc.IH [OF a] body_Continue_config [OF b] show ?case unfolding e
    by (simp add: same_config_def same_params_def)
qed

subsection \<open>Vectors, and the invariant of the directions\<close>

lemma VecDot_uminus: "VecDot (map uminus a) (map uminus b) = VecDot a b"
proof (induction a arbitrary: b)
  case Nil
  show ?case by (simp add: VecDot_def)
next
  case (Cons p a)
  then show ?case by (cases b) (simp_all add: VecDot_def)
qed

lemma VecDot_self_nonneg: "0 \<le> VecDot a a"
  by (induction a) (simp_all add: VecDot_def)

lemma VecDot_Polak_Ribiere:
  "length a = length b \<Longrightarrow>
   VecDot (VecAdd 1 a 1 (map uminus b)) a = VecDot (map2 (-) b a) (map uminus a)"
proof (induction a b rule: list_induct2)
  case Nil
  show ?case by (simp add: VecDot_def VecAdd_def)
next
  case (Cons p a q b)
  then show ?case by (simp add: VecDot_def VecAdd_def algebra_simps)
qed

lemma Max_utl_max: "Max_utl a b = max a b"
  by (simp add: Max_utl_def max_def)

lemma initializations_directions:
  assumes "length (jfcn cg x) = size_n cg" "length (g cg) = size_n cg" "length (h cg) = size_n cg"
    and i: "initializations cg x = (cgi, xi, fxi, fmini, foldi)"
  shows "u cgi = map uminus (jfcn cg x)" "g cgi = map uminus (jfcn cg x)"
    "h cgi = map uminus (jfcn cg x)" "tmp cgi = tmp cg"
proof -
  let ?cg0 = "cg\<lparr>u := jfcn cg x\<rparr>"
  have e: "init_directions ?cg0 = ?cg0\<lparr>u := map uminus (u ?cg0), g := map uminus (u ?cg0),
      h := map uminus (u ?cg0)\<rparr>"
    by (rule init_directions_eq) (simp_all add: assms(1-3))
  show "u cgi = map uminus (jfcn cg x)" "g cgi = map uminus (jfcn cg x)"
    "h cgi = map uminus (jfcn cg x)" "tmp cgi = tmp cg"
    using i unfolding initializations_def Let_def e by (auto split: if_splits)
qed

lemma linesearch_length:
  "well_formed c cg \<Longrightarrow> length x = size_n cg \<Longrightarrow>
   length (x_ls (linesearch c cg x v b f)) = size_n cg"
  by (simp add: linesearch_def well_formed_def)

lemma well_formed_transfer:
  assumes "well_formed c cg" "same_params cg cg'"
    "length (u cg') = size_n cg" "length (g cg') = size_n cg"
    "length (h cg') = size_n cg" "length (tmp cg') = size_n cg"
  shows "well_formed c cg'"
  using assms unfolding well_formed_def same_params_def by simp

lemma scaling_numerator_eq:
  "scaling_numerator cg =
     (if UseFRmethod cg then (VecDot (u cg) (u cg), cg)
      else (Max_utl (VecDot (VecAdd 1 (u cg) 1 (g cg)) (u cg)) 0,
            cg\<lparr>tmp := VecAdd 1 (u cg) 1 (g cg)\<rparr>))"
  by (simp add: scaling_numerator_def Let_def)

text \<open>What one pass that reaches the direction update does to the directions.\<close>

lemma body_Continue_directions:
  assumes wf: "well_formed c cg" and lx: "length x = size_n cg"
    and gi: "g cg = map uminus (jfcn cg x)"
    and b: "body c cg x fx fmin fold' = Continue cg' x' fx' fmin' fold''"
  defines "gOld \<equiv> jfcn cg x" and "gNew \<equiv> jfcn cg x'"
  defines "\<gamma> \<equiv> (if UseFRmethod cg then VecDot gNew gNew / VecDot gOld gOld
                  else max 0 (VecDot (map2 (-) gOld gNew) (map uminus gNew)) / VecDot gOld gOld)"
  shows "well_formed c cg'" "length x' = size_n cg'" "g cg' = map uminus (jfcn cg' x')"
    "u cg' = map2 (\<lambda>a b. - a + \<gamma> * b) gNew (h cg)" "g cg' = map uminus gNew" "h cg' = u cg'"
proof -
  from b obtain cg1 cg3 nume cg4 where
    lm: "line_minimization c cg x fold' = (cg1, x', fmin')" and
    cj: "check_gradient c (update_gradient cg1 x') x' = Inr cg3" and
    sn: "scaling_numerator cg3 = (nume, cg4)" and
    ud: "cg' = update_directions cg4 (nume / VecDot (g cg) (g cg))"
    by (rule body_ContinueE)
  have sc: "same_config cg cg'" using b by (rule body_Continue_config)
  then have sp: "same_params cg cg'" by (simp add: same_config_def)
  have sz: "size_n cg' = size_n cg" "jfcn cg' = jfcn cg"
    using sp by (simp_all add: same_params_def)
  have len: "length (u cg) = size_n cg" "length (g cg) = size_n cg" "length (h cg) = size_n cg"
    "length (tmp cg) = size_n cg"
    using wf by (simp_all add: well_formed_def)
  have x': "x' = x_ls (linesearch c cg x (u cg) True fold')"
    and v1: "u cg1 = u cg" "g cg1 = g cg" "h cg1 = h cg" "tmp cg1 = tmp cg"
    using lm unfolding line_minimization_eq by auto
  have sc1: "same_config cg cg1" using lm by (rule line_minimization_config)
  have lx': "length x' = size_n cg" unfolding x' using wf lx by (rule linesearch_length)
  let ?cg2 = "update_gradient cg1 x'"
  have j1: "jfcn cg1 = jfcn cg" "size_n cg1 = size_n cg" "UseFRmethod cg1 = UseFRmethod cg"
    using sc1 by (simp_all add: same_config_def same_params_def)
  have v2: "u ?cg2 = gNew" "g ?cg2 = g cg" "h ?cg2 = h cg" "tmp ?cg2 = tmp cg"
    "size_n ?cg2 = size_n cg" "UseFRmethod ?cg2 = UseFRmethod cg"
    by (simp_all add: update_gradient_def Let_def v1 j1 gNew_def)
  have os: "only_scratch ?cg2 cg3" using cj by (rule check_gradient_scratch)
  have sc3: "same_config ?cg2 cg3" using os by (rule only_scratch_fields)
  have v3: "u cg3 = gNew" "g cg3 = g cg" "h cg3 = h cg" "length (tmp cg3) = size_n cg"
    "size_n cg3 = size_n cg" "UseFRmethod cg3 = UseFRmethod cg"
    using only_scratch_fields [OF os] v2 len sc3
    by (simp_all add: same_config_def same_params_def)
  have lnew: "length gNew = size_n cg"
    unfolding gNew_def using wf lx' by (simp add: well_formed_def)
  have lold: "length gOld = size_n cg"
    unfolding gOld_def using wf lx by (simp add: well_formed_def)
  have deno: "VecDot (g cg) (g cg) = VecDot gOld gOld"
    unfolding gi gOld_def by (rule VecDot_uminus)
  have pr: "VecDot (VecAdd 1 gNew 1 (g cg)) gNew = VecDot (map2 (-) gOld gNew) (map uminus gNew)"
    unfolding gi gOld_def [symmetric] by (rule VecDot_Polak_Ribiere) (simp add: lnew lold)
  have gam: "nume / VecDot (g cg) (g cg) = \<gamma>"
    using sn unfolding scaling_numerator_eq v3 deno \<gamma>_def pr Max_utl_max
    by (auto split: if_splits simp: max.commute)
  have v4: "u cg4 = gNew" "g cg4 = g cg" "h cg4 = h cg" "length (tmp cg4) = size_n cg"
    "size_n cg4 = size_n cg"
    using sn v3 lnew len unfolding scaling_numerator_eq
    by (auto split: if_splits simp: VecAdd_def)
  have e: "cg' = cg4\<lparr>g := map uminus (u cg4),
      u := map2 (\<lambda>a b. - a + \<gamma> * b) (u cg4) (h cg4),
      h := map2 (\<lambda>a b. - a + \<gamma> * b) (u cg4) (h cg4)\<rparr>"
    unfolding ud gam by (rule update_directions_eq) (simp_all add: v4 lnew len)
  show u': "u cg' = map2 (\<lambda>a b. - a + \<gamma> * b) gNew (h cg)"
    and g': "g cg' = map uminus gNew" and "h cg' = u cg'"
    unfolding e by (simp_all add: v4)
  show "g cg' = map uminus (jfcn cg' x')" unfolding g' gNew_def sz ..
  show "length x' = size_n cg'" using lx' sz by simp
  show "well_formed c cg'"
    using wf sp
  proof (rule well_formed_transfer)
    show "length (u cg') = size_n cg" unfolding e by (simp add: v4 lnew len)
    show "length (g cg') = size_n cg" unfolding e by (simp add: v4 lnew)
    show "length (h cg') = size_n cg" unfolding e by (simp add: v4 lnew len)
    show "length (tmp cg') = size_n cg" unfolding e by (simp add: v4)
  qed
qed

lemma loop_head_invariant:
  assumes wf: "well_formed c cg0" and lx: "length x0 = size_n cg0"
  shows "loop_head c cg0 x0 n = Some (cg, x, fx, fmin, fold') \<Longrightarrow>
     well_formed c cg \<and> length x = size_n cg \<and> g cg = map uminus (jfcn cg x)"
proof (induction n arbitrary: cg x fx fmin fold')
  case 0
  then have i: "initializations cg0 x0 = (cg, x, fx, fmin, fold')" by simp
  have len: "length (jfcn cg0 x0) = size_n cg0" "length (g cg0) = size_n cg0"
    "length (h cg0) = size_n cg0" "length (tmp cg0) = size_n cg0"
    using wf lx by (simp_all add: well_formed_def)
  note d = initializations_directions [OF len(1-3) i]
  note f = initializations_facts [OF i]
  have sz: "size_n cg = size_n cg0" "jfcn cg = jfcn cg0"
    using f(1) by (simp_all add: same_params_def)
  have "well_formed c cg"
    using wf f(1) by (rule well_formed_transfer) (simp_all add: d len)
  then show ?case using d f lx sz by simp
next
  case (Suc n)
  from Suc.prems obtain cga xa fxa fmina folda cgb where
    a: "loop_head c cg0 x0 n = Some (cga, xa, fxa, fmina, folda)" and
    b: "body c cga xa fxa fmina folda = Continue cgb x fx fmin fold'" and
    e: "cg = cgb\<lparr>NumIter := NumIter cgb + 1\<rparr>"
    by (rule loop_head_SucE)
  from Suc.IH [OF a] have wfa: "well_formed c cga" and la: "length xa = size_n cga"
    and ga: "g cga = map uminus (jfcn cga xa)" by simp_all
  note r = body_Continue_directions [OF wfa la ga b]
  show ?case unfolding e using r(1-3) by (simp add: well_formed_def)
qed

text \<open>An optimizer as \<^verbatim>\<open>NewConjGrad\<close> builds it is well formed, whatever the caller then
  assigns to the exported configuration fields.\<close>

lemma NewConjGrad_well_formed:
  assumes "\<forall>y. length y = n \<longrightarrow> length (J y) = n"
    and "\<forall>y v b f. length y = n \<longrightarrow> length (x_ls (Wolfe c y v b f)) = n"
    and "\<forall>y v. length y = n \<longrightarrow> length (x_ls (MinUpdateX c y v)) = n"
  shows "well_formed c (NewConjGrad n f J)"
  using assms by (simp add: well_formed_def NewConjGrad_def)

subsection \<open>Runs that leave at once; the example\<close>

lemma ex_init:
  assumes "size_n cg0 = 1" "ffcn cg0 = ex_ffcn" "jfcn cg0 = ex_jfcn"
    "length (g cg0) = 1" "length (h cg0) = 1"
    and i: "initializations cg0 [a] = (cg, x, fx, fmin, fold')"
  shows "x = [a]" "fx = a * a" "fmin = a * a"
    "u cg = [- (2 * a)]" "g cg = [- (2 * a)]" "h cg = [- (2 * a)]"
    "same_params cg0 cg" "NumIter cg = 0" "NumFeval cg = 1" "NumJeval cg = 1"
proof -
  note f = initializations_facts [OF i]
  have l: "length (jfcn cg0 [a]) = size_n cg0" "length (g cg0) = size_n cg0"
    "length (h cg0) = size_n cg0"
    using assms(1-5) by (simp_all add: ex_jfcn_def)
  note d = initializations_directions [OF l i]
  show "x = [a]" "fx = a * a" "fmin = a * a" "same_params cg0 cg" "NumIter cg = 0"
    "NumFeval cg = 1" "NumJeval cg = 1"
    using f assms(2) by (simp_all add: ex_ffcn_def)
  show "u cg = [- (2 * a)]" "g cg = [- (2 * a)]" "h cg = [- (2 * a)]"
    using d assms(3) by (simp_all add: ex_jfcn_def)
qed

lemma ex_cg_fields:
  "size_n ex_cg = 1" "ffcn ex_cg = ex_ffcn" "jfcn ex_cg = ex_jfcn"
  "length (u ex_cg) = 1" "length (g ex_cg) = 1" "length (h ex_cg) = 1" "length (tmp ex_cg) = 1"
  "tiny ex_cg = 1 / 10 ^ 18" "MaxIt ex_cg = 200" "Ftol ex_cg = 1 / 10 ^ 8" "Gtol ex_cg = 1 / 10 ^ 8"
  "UseBrent ex_cg = False" "UseFRmethod ex_cg = False" "CheckJfcn ex_cg = False"
  "History ex_cg = False"
  by (simp_all add: ex_cg_def NewConjGrad_def)

lemma ex_well_formed:
  assumes "size_n cg = 1" "jfcn cg = ex_jfcn" "tiny cg = 1 / 10 ^ 18"
    "length (u cg) = 1" "length (g cg) = 1" "length (h cg) = 1" "length (tmp cg) = 1"
  shows "well_formed ex_collab cg"
  unfolding well_formed_def using assms by (simp add: ex_jfcn_def ex_collab_def)

lemma Min_without_iterations:
  assumes "MaxIt cg0 \<le> 0"
  shows "\<exists>cg fx fmin fold'.
           initializations cg0 x0 = (cg, x0, fx, fmin, fold') \<and>
           Min c cg0 x0 = Panic (FailToConverge 0) cg x0 \<and>
           NumFeval cg = 1 \<and> NumJeval cg = 1 \<and> NumIter cg = 0 \<and>
           loop_head c cg0 x0 1 = None"
proof -
  obtain cg x fx fmin fold' where i: "initializations cg0 x0 = (cg, x, fx, fmin, fold')"
    by (cases "initializations cg0 x0") auto
  note f = initializations_facts [OF i]
  have m: "MaxIt cg = MaxIt cg0" using f(1) by (simp add: same_params_def)
  have nolt: "\<not> NumIter cg < MaxIt cg" using assms m f(2) by simp
  have "Min c cg0 x0 = Panic (FailToConverge 0) cg x0"
    using nolt f(2) f(5) by (simp add: Min_def i iterations.simps [of c cg])
  moreover have "loop_head c cg0 x0 1 = None"
    using nolt by (simp add: i)
  ultimately show ?thesis using i f by auto
qed

lemma body_exit1:
  "\<bar>VecDot (g cg) (g cg)\<bar> < tiny cg \<Longrightarrow> body c cg x fx fmin fold' = Exit (Return fmin cg x)"
  by (simp add: body_def Let_def)

lemma Min_zero_gradient:
  assumes m: "1 \<le> MaxIt cg0" and eps: "tiny cg0 = 1 / 10 ^ 18"
    and len: "length (jfcn cg0 x0) = size_n cg0" "length (g cg0) = size_n cg0"
      "length (h cg0) = size_n cg0"
    and z: "VecDot (jfcn cg0 x0) (jfcn cg0 x0) < 1 / 10 ^ 18"
    and i: "initializations cg0 x0 = (cg, x, fx, fmin, fold')"
  shows "Min c cg0 x0 = Return (ffcn cg0 x0) cg x0"
proof -
  note f = initializations_facts [OF i]
  note d = initializations_directions [OF len i]
  have par: "MaxIt cg = MaxIt cg0" "tiny cg = 1 / 10 ^ 18"
    using f(1) eps by (simp_all add: same_params_def)
  have "VecDot (g cg) (g cg) = VecDot (jfcn cg0 x0) (jfcn cg0 x0)"
    unfolding d by (rule VecDot_uminus)
  moreover have "0 \<le> VecDot (jfcn cg0 x0) (jfcn cg0 x0)" by (rule VecDot_self_nonneg)
  ultimately have "\<bar>VecDot (g cg) (g cg)\<bar> < tiny cg" using z par by simp
  then have "body c cg x fx fmin fold' = Exit (Return fmin cg x)" by (rule body_exit1)
  moreover have "NumIter cg < MaxIt cg" using m f(2) par by simp
  ultimately have "iterations c cg x fx fmin fold' = Return fmin cg x"
    by (simp add: iterations_Exit)
  then show ?thesis using f by (simp add: Min_def i)
qed

lemma ex_first_pass:
  assumes i: "initializations ex_cg [1] = (cg, x, fx, fmin, fold')"
  shows "\<exists>cg'. body ex_collab cg x fx fmin fold' = Continue cg' [1 / 2] (1 / 4) (1 / 4) 1"
proof -
  note e = ex_init [OF ex_cg_fields(1,2,3,5,6) i]
  have par: "MaxIt cg = 200" "tiny cg = 1 / 10 ^ 18" "Ftol cg = 1 / 10 ^ 8" "Gtol cg = 1 / 10 ^ 8"
    "UseBrent cg = False" "UseFRmethod cg = False" "CheckJfcn cg = False" "jfcn cg = ex_jfcn"
    "size_n cg = 1" "History cg = False"
    using e(7) by (simp_all add: same_params_def ex_cg_fields)
  obtain cg1 x1 fmin1 where lm: "line_minimization ex_collab cg x fold' = (cg1, x1, fmin1)"
    by (cases "line_minimization ex_collab cg x fold'") auto
  have l1: "x1 = [1 / 2]" "fmin1 = 1 / 4"
    using lm unfolding line_minimization_eq
    by (auto simp: linesearch_def par ex_collab_def e)
  have sc1: "same_config cg cg1" using lm by (rule line_minimization_config)
  have par1: "Ftol cg1 = 1 / 10 ^ 8" "tiny cg1 = 1 / 10 ^ 18" "CheckJfcn cg1 = False"
    "jfcn cg1 = ex_jfcn" "size_n cg1 = 1" "Gtol cg1 = 1 / 10 ^ 8"
    using sc1 par by (simp_all add: same_config_def same_params_def)
  have n1: "\<not> \<bar>VecDot (g cg) (g cg)\<bar> < tiny cg"
    by (simp add: e par VecDot_def)
  have n2: "\<not> converged_on_f cg1 fmin1 fx"
    by (simp add: converged_on_f_def par1 l1 e)
  let ?cg2 = "update_gradient cg1 x1"
  have cj: "check_gradient ex_collab ?cg2 x1 = Inr ?cg2"
    by (simp add: check_gradient_def update_gradient_def Let_def par1)
  have n3: "\<not> gradient_test ?cg2 x1 fmin1 < Gtol ?cg2"
    by (simp add: gradient_test_def update_gradient_def Let_def par1 l1 ex_jfcn_def Max_utl_def)
  obtain nume cg4 where sn: "scaling_numerator ?cg2 = (nume, cg4)"
    by (cases "scaling_numerator ?cg2") auto
  have "body ex_collab cg x fx fmin fold' =
      Continue (update_directions cg4 (nume / VecDot (g cg) (g cg))) x1 fmin1 fmin1 fx"
    using n1 n2 n3 by (simp add: body_eq [OF lm] cj sn)
  then show ?thesis using l1 e(2) by simp
qed

subsection \<open>Independence of the gradient tolerance\<close>

lemma foldl_Gtol:
  assumes "\<And>a j. f (a\<lparr>Gtol := G\<rparr>) j = (f a j)\<lparr>Gtol := G\<rparr>"
  shows "foldl f (cg\<lparr>Gtol := G\<rparr>) js = (foldl f cg js)\<lparr>Gtol := G\<rparr>"
  by (induction js arbitrary: cg) (simp_all add: assms)

lemma init_directions_Gtol:
  "init_directions (cg\<lparr>Gtol := G\<rparr>) = (init_directions cg)\<lparr>Gtol := G\<rparr>"
proof -
  have s: "size_n (cg\<lparr>Gtol := G\<rparr>) = size_n cg" by simp
  show ?thesis
    unfolding init_directions_def s
    by (rule foldl_Gtol) (simp add: Let_def)
qed

lemma initializations_eq:
  "initializations cg x =
     (let D = init_directions (cg\<lparr>u := jfcn cg x\<rparr>) in
      ((if History cg
        then D\<lparr>NumFeval := 1, NumJeval := 1,
               Hist := Some (NewHistory (MaxIt cg) (ffcn cg x) x (ffcn cg)), NumIter := 0\<rparr>
        else D\<lparr>NumFeval := 1, NumJeval := 1, NumIter := 0\<rparr>),
       x, ffcn cg x, ffcn cg x, ffcn cg x + Norm (u D) / 2))"
proof -
  let ?D = "init_directions (cg\<lparr>u := jfcn cg x\<rparr>)"
  have "same_config (cg\<lparr>u := jfcn cg x\<rparr>) ?D" by (rule init_directions_config)
  then have p: "History ?D = History cg" "MaxIt ?D = MaxIt cg" "ffcn ?D = ffcn cg"
    by (simp_all add: same_config_def same_params_def)
  show ?thesis by (simp add: initializations_def Let_def p)
qed

lemma initializations_Gtol:
  assumes "initializations cg x = (cgi, xi, fxi, fmini, foldi)"
  shows "initializations (cg\<lparr>Gtol := G\<rparr>) x = (cgi\<lparr>Gtol := G\<rparr>, xi, fxi, fmini, foldi)"
proof -
  let ?D = "init_directions (cg\<lparr>u := jfcn cg x\<rparr>)"
  have sw: "cg\<lparr>Gtol := G\<rparr>\<lparr>u := jfcn (cg\<lparr>Gtol := G\<rparr>) x\<rparr> = cg\<lparr>u := jfcn cg x\<rparr>\<lparr>Gtol := G\<rparr>"
    by (cases cg) simp
  have a: "init_directions (cg\<lparr>Gtol := G\<rparr>\<lparr>u := jfcn (cg\<lparr>Gtol := G\<rparr>) x\<rparr>) = ?D\<lparr>Gtol := G\<rparr>"
    unfolding sw by (rule init_directions_Gtol)
  have r: "initializations (cg\<lparr>Gtol := G\<rparr>) x =
      (case initializations cg x of (c1, r) \<Rightarrow> (c1\<lparr>Gtol := G\<rparr>, r))"
    unfolding initializations_eq Let_def a
    by (cases ?D) simp
  show ?thesis unfolding r assms by simp
qed

lemma line_minimization_Gtol:
  assumes "line_minimization c cg x f = (cg1, x1, fmin1)"
  shows "line_minimization c (cg\<lparr>Gtol := G\<rparr>) x f = (cg1\<lparr>Gtol := G\<rparr>, x1, fmin1)"
  using assms unfolding line_minimization_eq by (auto simp: linesearch_def)

lemma gradient_test_cong:
  "u cg = u cg' \<Longrightarrow> size_n cg = size_n cg' \<Longrightarrow> gradient_test cg x fx = gradient_test cg' x fx"
  by (simp add: gradient_test_def)

lemma checkJacobian_k_error:
  "checkJacobian_k c x cg k = Inl (e, cg') \<Longrightarrow> \<exists>d. e = JacobianIncorrect d"
  by (auto simp: checkJacobian_k_def Let_def split: if_splits)

lemma checkJacobian_loop_error:
  "checkJacobian_loop c x ks cg = Inl (e, cg') \<Longrightarrow> \<exists>d. e = JacobianIncorrect d"
proof (induction ks arbitrary: cg)
  case Nil
  then show ?case by simp
next
  case (Cons k ks)
  show ?case
  proof (cases "checkJacobian_k c x cg k")
    case (Inl p)
    with Cons.prems have "checkJacobian_k c x cg k = Inl (e, cg')" by simp
    then show ?thesis by (rule checkJacobian_k_error)
  next
    case (Inr cg1)
    with Cons.prems have "checkJacobian_loop c x ks cg1 = Inl (e, cg')" by simp
    then show ?thesis by (rule Cons.IH)
  qed
qed

lemma check_gradient_error:
  "check_gradient c cg x = Inl (e, cg') \<Longrightarrow> CheckJfcn cg \<and> (\<exists>d. e = JacobianIncorrect d)"
  using checkJacobian_loop_error [of c x "[0..<size_n cg]" cg e cg']
  by (auto simp: check_gradient_def checkJacobian_def split: if_splits)

lemma loop_head_1_Exit:
  assumes "initializations cg0 x0 = (cg, x, fx, fmin, fold')"
    and "body c cg x fx fmin fold' = Exit out"
  shows "loop_head c cg0 x0 1 = None"
  using assms by simp

subsection \<open>Passes that fall through\<close>

lemma no_exit_Continue:
  assumes "no_exit_condition c cg x fx fold'"
  shows "\<exists>cg' x' fx' fmin' fold''. body c cg x fx fmin fold' = Continue cg' x' fx' fmin' fold''"
proof -
  obtain cg1 x1 fmin1 where lm: "line_minimization c cg x fold' = (cg1, x1, fmin1)"
    by (cases "line_minimization c cg x fold'") auto
  from assms lm obtain cg3 where
    "\<not> \<bar>VecDot (g cg) (g cg)\<bar> < tiny cg" "\<not> converged_on_f cg1 fmin1 fx"
    "check_gradient c (update_gradient cg1 x1) x1 = Inr cg3"
    "\<not> gradient_test cg3 x1 fmin1 < Gtol cg3"
    by (auto simp: no_exit_condition_def split: sum.splits)
  then show ?thesis
    by (cases "scaling_numerator cg3") (simp add: body_eq [OF lm])
qed

lemma ex_pass_from_1:
  assumes par: "tiny cg = 1 / 10 ^ 18" "Ftol cg = 1 / 10 ^ 8" "Gtol cg = 1 / 10 ^ 8"
    "UseBrent cg = False" "CheckJfcn cg = False" "jfcn cg = ex_jfcn" "size_n cg = 1"
    and gv: "g cg = [- 2]"
  shows "no_exit_condition ex_collab cg [1] 1 fold'"
proof -
  obtain cg1 x1 fmin1 where lm: "line_minimization ex_collab cg [1] fold' = (cg1, x1, fmin1)"
    by (cases "line_minimization ex_collab cg [1] fold'") auto
  have l1: "x1 = [1 / 2]" "fmin1 = 1 / 4"
    using lm unfolding line_minimization_eq
    by (auto simp: linesearch_def par ex_collab_def)
  have sc1: "same_config cg cg1" using lm by (rule line_minimization_config)
  have par1: "Ftol cg1 = 1 / 10 ^ 8" "tiny cg1 = 1 / 10 ^ 18" "CheckJfcn cg1 = False"
    "jfcn cg1 = ex_jfcn" "size_n cg1 = 1" "Gtol cg1 = 1 / 10 ^ 8"
    using sc1 par by (simp_all add: same_config_def same_params_def)
  have n1: "\<not> \<bar>VecDot (g cg) (g cg)\<bar> < tiny cg"
    by (simp add: gv par VecDot_def)
  have n2: "\<not> converged_on_f cg1 fmin1 1"
    by (simp add: converged_on_f_def par1 l1)
  let ?cg2 = "update_gradient cg1 x1"
  have cj: "check_gradient ex_collab ?cg2 x1 = Inr ?cg2"
    by (simp add: check_gradient_def update_gradient_def Let_def par1)
  have n3: "\<not> gradient_test ?cg2 x1 fmin1 < Gtol ?cg2"
    by (simp add: gradient_test_def update_gradient_def Let_def par1 l1 ex_jfcn_def Max_utl_def)
  show ?thesis
    using n1 n2 n3 by (simp add: no_exit_condition_def lm cj)
qed

subsection \<open>The evaluation counters\<close>

lemma counters_le_refl: "counters_le cg cg"
  by (simp add: counters_le_def)

lemma counters_le_trans: "counters_le a b \<Longrightarrow> counters_le b d \<Longrightarrow> counters_le a d"
  by (simp add: counters_le_def)

lemma linesearch_counts:
  "counts_nonneg c \<Longrightarrow>
   0 \<le> NumFeval_ls (linesearch c cg x v b f) \<and> 0 \<le> NumJeval_ls (linesearch c cg x v b f)"
  by (simp add: counts_nonneg_def linesearch_def)

lemma line_minimization_counters:
  assumes "line_minimization c cg x fold' = (cg1, x1, fmin1)"
  shows "NumFeval cg1 = NumFeval cg + NumFeval_ls (linesearch c cg x (u cg) True fold')"
    "NumJeval cg1 = NumJeval cg + NumJeval_ls (linesearch c cg x (u cg) True fold')"
  using assms unfolding line_minimization_eq by auto

lemma update_gradient_counters:
  "NumFeval (update_gradient cg x) = NumFeval cg"
  "NumJeval (update_gradient cg x) = NumJeval cg + 1"
  by (simp_all add: update_gradient_def Let_def)

lemma scaling_numerator_counters:
  "scaling_numerator cg = (n, cg') \<Longrightarrow> NumFeval cg' = NumFeval cg \<and> NumJeval cg' = NumJeval cg"
  unfolding scaling_numerator_eq by (auto split: if_splits)

lemma foldl_counters:
  assumes "\<And>a j. NumFeval (f a j) = NumFeval a \<and> NumJeval (f a j) = NumJeval a"
  shows "NumFeval (foldl f cg js) = NumFeval cg \<and> NumJeval (foldl f cg js) = NumJeval cg"
  by (induction js arbitrary: cg) (simp_all add: assms)

lemma update_directions_counters:
  "NumFeval (update_directions cg \<gamma>) = NumFeval cg \<and> NumJeval (update_directions cg \<gamma>) = NumJeval cg"
  unfolding update_directions_def
  by (rule foldl_counters) (simp add: Let_def)

lemma check_gradient_counters:
  assumes "check_gradient c cg x = Inr cg' \<or> check_gradient c cg x = Inl (e, cg')"
  shows "NumFeval cg \<le> NumFeval cg'" "NumJeval cg' = NumJeval cg"
proof -
  from assms have os: "only_scratch cg cg'"
    using check_gradient_scratch by blast
  show "NumFeval cg \<le> NumFeval cg'" "NumJeval cg' = NumJeval cg"
    using only_scratch_fields [OF os] by simp_all
qed

lemma body_counters:
  assumes nn: "counts_nonneg c"
  shows "body c cg x fx fmin fold' = Continue cg' x' fx' fmin' fold'' \<Longrightarrow> counters_le cg cg'"
    and "body c cg x fx fmin fold' = Exit out \<Longrightarrow> counters_le cg (outcome_cg out)"
proof -
  obtain cg1 x1 fmin1 where lm: "line_minimization c cg x fold' = (cg1, x1, fmin1)"
    by (cases "line_minimization c cg x fold'") auto
  have 1: "counters_le cg cg1"
    using line_minimization_counters [OF lm] linesearch_counts [OF nn, of cg x "u cg" True fold']
    by (simp add: counters_le_def)
  let ?cg2 = "update_gradient cg1 x1"
  have 2: "counters_le cg ?cg2"
    using 1 by (simp add: counters_le_def update_gradient_counters)
  have 3: "counters_le cg cg3"
    if "check_gradient c ?cg2 x1 = Inr cg3 \<or> check_gradient c ?cg2 x1 = Inl (e, cg3)" for cg3 e
    using check_gradient_counters [OF that] 2 by (simp add: counters_le_def)
  {
    assume b: "body c cg x fx fmin fold' = Continue cg' x' fx' fmin' fold''"
    from b obtain cga cg3 nume cg4 where
      lm': "line_minimization c cg x fold' = (cga, x', fmin')" and
      cj: "check_gradient c (update_gradient cga x') x' = Inr cg3" and
      sn: "scaling_numerator cg3 = (nume, cg4)" and
      ud: "cg' = update_directions cg4 (nume / VecDot (g cg) (g cg))"
      by (rule body_ContinueE)
    from lm lm' have eq: "cga = cg1" "x' = x1" by simp_all
    have "counters_le cg cg3" using cj unfolding eq by (intro 3) simp
    then show "counters_le cg cg'"
      unfolding ud using scaling_numerator_counters [OF sn] update_directions_counters [of cg4]
      by (simp add: counters_le_def)
  }
  {
    assume b: "body c cg x fx fmin fold' = Exit out"
    show "counters_le cg (outcome_cg out)"
    proof (cases "check_gradient c ?cg2 x1")
      case (Inl p)
      obtain e cgp where p: "p = (e, cgp)" by (cases p) auto
      have "counters_le cg cgp" using Inl unfolding p by (intro 3) simp
      then show ?thesis using b 1
        by (auto simp: body_eq [OF lm] Inl p counters_le_refl split: if_splits)
    next
      case (Inr cg3)
      have "counters_le cg cg3" using Inr by (intro 3) simp
      then show ?thesis using b 1
        by (auto simp: body_eq [OF lm] Inr counters_le_refl split: if_splits prod.splits)
    qed
  }
qed

lemma iterations_counters:
  "counts_nonneg c \<Longrightarrow> counters_le cg (outcome_cg (iterations c cg x fx fmin fold'))"
proof (induction c cg x fx fmin fold' rule: iterations.induct)
  case (1 c cg x fx fmin fold')
  note nn = "1.prems"
  show ?case
  proof (cases "NumIter cg < MaxIt cg")
    case False
    then show ?thesis by (subst iterations.simps) (simp add: counters_le_refl)
  next
    case True
    show ?thesis
    proof (cases "body c cg x fx fmin fold'")
      case (Exit out)
      then show ?thesis using True body_counters(2) [OF nn Exit]
        by (subst iterations.simps) simp
    next
      case (Continue cg' x' fx' fmin' fold'')
      have a: "counters_le cg (cg'\<lparr>NumIter := NumIter cg' + 1\<rparr>)"
        using body_counters(1) [OF nn Continue] by (simp add: counters_le_def)
      show ?thesis using True Continue counters_le_trans [OF a "1.IH" [OF True Continue nn]]
        by (subst iterations.simps) simp
    qed
  qed
qed

lemma loop_head_counters:
  assumes nn: "counts_nonneg c"
    and a: "loop_head c cg0 x0 n = Some (cga, xa, fxa, fmina, folda)"
  shows "loop_head c cg0 x0 (n + k) = Some (cgb, xb, fxb, fminb, foldb) \<Longrightarrow> counters_le cga cgb"
proof (induction k arbitrary: cgb xb fxb fminb foldb)
  case 0
  with a show ?case by (simp add: counters_le_refl)
next
  case (Suc k)
  from Suc.prems have "loop_head c cg0 x0 (Suc (n + k)) = Some (cgb, xb, fxb, fminb, foldb)"
    by simp
  then obtain cgm xm fxm fminm foldm cgn where
    m: "loop_head c cg0 x0 (n + k) = Some (cgm, xm, fxm, fminm, foldm)" and
    b: "body c cgm xm fxm fminm foldm = Continue cgn xb fxb fminb foldb" and
    e: "cgb = cgn\<lparr>NumIter := NumIter cgn + 1\<rparr>"
    by (rule loop_head_SucE)
  have "counters_le cgm cgb" using body_counters(1) [OF nn b] unfolding e
    by (simp add: counters_le_def)
  with Suc.IH [OF m] show ?case by (rule counters_le_trans)
qed

lemma ex_check_gradient:
  assumes "CheckJfcn cg" "size_n cg = 1" "ffcn cg = ex_ffcn" "length (tmp cg) = 1" "u cg = [2 * a]"
  shows "\<exists>cg'. check_gradient ex_collab cg [a] = Inr cg' \<and> NumFeval cg' = NumFeval cg + 2"
proof -
  obtain t where t: "tmp cg = [t]" using assms(4) by (cases "tmp cg") auto
  have c: "copy_go (tmp cg) [a] = [a]" by (simp add: copy_go_def t)
  have "((a + 1 / 1000) * (a + 1 / 1000) - (a - 1 / 1000) * (a - 1 / 1000)) / (2 * (1 / 1000)) = 2 * a"
    by (simp add: algebra_simps)
  then show ?thesis
    by (simp add: check_gradient_def checkJacobian_def checkJacobian_k_def assms c ex_collab_def
        ex_ffcn_def Let_def)
qed

subsection \<open>The statistic of the gradient test\<close>

lemma foldl_running_max:
  fixes t :: "nat \<Rightarrow> real"
  shows "foldl (\<lambda>test j. let temp = t j in if temp > test then temp else test) a js
     = Max (insert a (t ` set js))"
proof (induction js arbitrary: a)
  case Nil
  show ?case by simp
next
  case (Cons j js)
  have f: "(let temp = t j in if temp > a then temp else a) = max a (t j)"
    by (simp add: Let_def max_def)
  have "Max (insert (max a (t j)) (t ` set js)) = Max (insert a (insert (t j) (t ` set js)))"
    by (cases "t ` set js = {}") (simp_all add: max.assoc)
  then show ?case using Cons.IH [of "max a (t j)"] by (simp add: f)
qed

lemma gradient_test_Max:
  assumes "0 < size_n cg"
  shows "gradient_test cg x fx
     = Max ((\<lambda>j. \<bar>u cg ! j\<bar> * max \<bar>x ! j\<bar> 1 / max fx 1) ` {..<size_n cg})"
proof -
  let ?t = "\<lambda>j. \<bar>u cg ! j\<bar> * max \<bar>x ! j\<bar> 1 / max fx 1"
  let ?S = "?t ` {..<size_n cg}"
  have g: "gradient_test cg x fx = Max (insert 0 ?S)"
    unfolding gradient_test_def Let_def Max_utl_max
    using foldl_running_max [of ?t 0 "[0..<size_n cg]"] by (simp add: Let_def atLeast0LessThan)
  have fin: "finite ?S" by simp
  have ne: "?S \<noteq> {}" using assms by auto
  have "?t 0 \<in> ?S" using assms by blast
  then have "?t 0 \<le> Max ?S" using fin by (rule Max_ge [rotated])
  moreover have "0 \<le> ?t 0" by simp
  ultimately have "0 \<le> Max ?S" by linarith
  then have "Max (insert 0 ?S) = Max ?S"
    using fin ne by (simp add: max_def)
  with g show ?thesis by simp
qed

subsection \<open>The verdict of checkJacobian\<close>

lemma checkJacobian_k_cases:
  assumes "length (tmp cg) = length x"
  shows "Jacobian_deviation c cg x k \<le> 1 / 10 ^ 12 \<Longrightarrow> \<exists>cg'. checkJacobian_k c x cg k = Inr cg'"
    and "1 / 10 ^ 12 < Jacobian_deviation c cg x k \<Longrightarrow>
      \<exists>cg'. checkJacobian_k c x cg k = Inl (JacobianIncorrect (Jacobian_deviation c cg x k), cg')"
proof -
  have c: "copy_go (tmp cg) x = x" using assms by (simp add: copy_go_def)
  show "Jacobian_deviation c cg x k \<le> 1 / 10 ^ 12 \<Longrightarrow> \<exists>cg'. checkJacobian_k c x cg k = Inr cg'"
    by (simp add: checkJacobian_k_def Let_def c Jacobian_deviation_def)
  show "1 / 10 ^ 12 < Jacobian_deviation c cg x k \<Longrightarrow>
      \<exists>cg'. checkJacobian_k c x cg k = Inl (JacobianIncorrect (Jacobian_deviation c cg x k), cg')"
    by (simp add: checkJacobian_k_def Let_def c Jacobian_deviation_def)
qed

lemma Jacobian_deviation_scratch:
  assumes "only_scratch cg cg'"
  shows "Jacobian_deviation c cg' x k = Jacobian_deviation c cg x k"
  using only_scratch_fields(1,6) [OF assms]
  by (simp add: Jacobian_deviation_def same_config_def same_params_def)

lemma checkJacobian_loop_pass:
  "length (tmp cg) = length x \<Longrightarrow> \<forall>k \<in> set ks. Jacobian_deviation c cg x k \<le> 1 / 10 ^ 12 \<Longrightarrow>
   \<exists>cg'. checkJacobian_loop c x ks cg = Inr cg'"
proof (induction ks arbitrary: cg)
  case Nil
  show ?case by simp
next
  case (Cons k ks)
  from Cons.prems have "Jacobian_deviation c cg x k \<le> 1 / 10 ^ 12" by simp
  with checkJacobian_k_cases(1) [OF Cons.prems(1)] obtain cg1 where
    k: "checkJacobian_k c x cg k = Inr cg1" by blast
  then have os: "only_scratch cg cg1" by (rule checkJacobian_k_scratch)
  have l: "length (tmp cg1) = length x"
    using only_scratch_fields(7) [OF os] Cons.prems(1) by simp
  have "\<forall>j \<in> set ks. Jacobian_deviation c cg1 x j \<le> 1 / 10 ^ 12"
    using Cons.prems(2) by (simp add: Jacobian_deviation_scratch [OF os])
  from Cons.IH [OF l this] show ?case by (simp add: k)
qed

lemma checkJacobian_loop_fail:
  "length (tmp cg) = length x \<Longrightarrow> \<forall>j \<in> set ks1. Jacobian_deviation c cg x j \<le> 1 / 10 ^ 12 \<Longrightarrow>
   1 / 10 ^ 12 < Jacobian_deviation c cg x k \<Longrightarrow>
   \<exists>cg'. checkJacobian_loop c x (ks1 @ k # ks2) cg
      = Inl (JacobianIncorrect (Jacobian_deviation c cg x k), cg')"
proof (induction ks1 arbitrary: cg)
  case Nil
  from checkJacobian_k_cases(2) [OF Nil(1) Nil(3)] show ?case by auto
next
  case (Cons j ks1)
  from Cons.prems have "Jacobian_deviation c cg x j \<le> 1 / 10 ^ 12" by simp
  with checkJacobian_k_cases(1) [OF Cons.prems(1)] obtain cg1 where
    k: "checkJacobian_k c x cg j = Inr cg1" by blast
  then have os: "only_scratch cg cg1" by (rule checkJacobian_k_scratch)
  have l: "length (tmp cg1) = length x"
    using only_scratch_fields(7) [OF os] Cons.prems(1) by simp
  have a: "\<forall>i \<in> set ks1. Jacobian_deviation c cg1 x i \<le> 1 / 10 ^ 12"
    using Cons.prems(2) by (simp add: Jacobian_deviation_scratch [OF os])
  have b: "1 / 10 ^ 12 < Jacobian_deviation c cg1 x k"
    using Cons.prems(3) by (simp add: Jacobian_deviation_scratch [OF os])
  from Cons.IH [OF l a b] show ?case
    by (simp add: k Jacobian_deviation_scratch [OF os])
qed

lemma no_exit_test_body:
  assumes ne: "no_exit_test c cg x fx fold'"
    and lm: "line_minimization c cg x fold' = (cg1, x1, fmin1)"
  shows "(\<exists>cg' x' fx' fmin' fold''. body c cg x fx fmin fold' = Continue cg' x' fx' fmin' fold'') \<or>
         (CheckJfcn cg \<and>
          (\<exists>d cgp. check_gradient c (update_gradient cg1 x1) x1 = Inl (JacobianIncorrect d, cgp) \<and>
             body c cg x fx fmin fold' = Exit (Panic (JacobianIncorrect d) cgp x1)))"
proof -
  let ?cg2 = "update_gradient cg1 x1"
  from ne lm have n1: "\<not> \<bar>VecDot (g cg) (g cg)\<bar> < tiny cg"
    and n2: "\<not> converged_on_f cg1 fmin1 fx"
    and n3: "\<not> gradient_test ?cg2 x1 fmin1 < Gtol ?cg2"
    by (simp_all add: no_exit_test_def)
  have sc2: "same_config cg ?cg2"
    using line_minimization_config [OF lm] update_gradient_config [of cg1 x1]
    by (rule same_config_trans)
  show ?thesis
  proof (cases "check_gradient c ?cg2 x1")
    case (Inl p)
    obtain e cgp where p: "p = (e, cgp)" by (cases p) auto
    from check_gradient_error [OF Inl [unfolded p]] obtain d where
      cj: "CheckJfcn ?cg2" and e: "e = JacobianIncorrect d" by blast
    have "CheckJfcn cg" using cj sc2 by (simp add: same_config_def same_params_def)
    moreover have "body c cg x fx fmin fold' = Exit (Panic (JacobianIncorrect d) cgp x1)"
      using n1 n2 by (simp add: body_eq [OF lm] Inl p e)
    ultimately show ?thesis using Inl p e by blast
  next
    case (Inr cg3)
    have os: "only_scratch ?cg2 cg3" using Inr by (rule check_gradient_scratch)
    have "gradient_test cg3 x1 fmin1 = gradient_test ?cg2 x1 fmin1"
      by (rule gradient_test_cong)
        (use only_scratch_fields [OF os] in \<open>simp_all add: same_config_def same_params_def\<close>)
    moreover have "Gtol cg3 = Gtol ?cg2"
      using only_scratch_fields(6) [OF os] by (simp add: same_config_def same_params_def)
    ultimately have n3': "\<not> gradient_test cg3 x1 fmin1 < Gtol cg3" using n3 by simp
    show ?thesis
      using n1 n2 n3' by (cases "scaling_numerator cg3") (simp add: body_eq [OF lm] Inr)
  qed
qed

lemma no_exit_condition_test:
  assumes "no_exit_condition c cg x fx fold'"
  shows "no_exit_test c cg x fx fold'"
proof -
  obtain cg1 x1 fmin1 where lm: "line_minimization c cg x fold' = (cg1, x1, fmin1)"
    by (cases "line_minimization c cg x fold'") auto
  let ?cg2 = "update_gradient cg1 x1"
  from assms lm obtain cg3 where
    n1: "\<not> \<bar>VecDot (g cg) (g cg)\<bar> < tiny cg" and n2: "\<not> converged_on_f cg1 fmin1 fx" and
    ck: "check_gradient c ?cg2 x1 = Inr cg3" and
    n3: "\<not> gradient_test cg3 x1 fmin1 < Gtol cg3"
    by (auto simp: no_exit_condition_def split: sum.splits)
  have os: "only_scratch ?cg2 cg3" using ck by (rule check_gradient_scratch)
  have "gradient_test cg3 x1 fmin1 = gradient_test ?cg2 x1 fmin1"
    by (rule gradient_test_cong)
      (use only_scratch_fields [OF os] in \<open>simp_all add: same_config_def same_params_def\<close>)
  moreover have "Gtol cg3 = Gtol ?cg2"
    using only_scratch_fields(6) [OF os] by (simp add: same_config_def same_params_def)
  ultimately have "\<not> gradient_test ?cg2 x1 fmin1 < Gtol ?cg2" using n3 by simp
  with n1 n2 show ?thesis by (simp add: no_exit_test_def lm)
qed

text \<open>The example with a gradient function that is wrong by a factor: the first pass meets
  no exit test and the verification of the gradient aborts it.\<close>

lemma ex_wrong_gradient_run:
  fixes m :: int
  assumes m: "1 \<le> m"
  defines "cB \<equiv> ex_cg\<lparr>MaxIt := m, CheckJfcn := True, jfcn := ex_wrong_jfcn\<rparr>"
  shows "pass_no_exit ex_collab cB [1] 0"
    and "\<exists>cgp. Min ex_collab cB [1] = Panic (JacobianIncorrect (1 / 2)) cgp [1 / 2]"
proof -
  have q: "((1 / 2 + 1 / 1000) * (1 / 2 + 1 / 1000) - (1 / 2 - 1 / 1000) * (1 / 2 - 1 / 1000))
      / (2 * (1 / 1000)) = (1::real)" by simp
  have fB: "size_n cB = 1" "ffcn cB = ex_ffcn" "jfcn cB = ex_wrong_jfcn" "MaxIt cB = m"
    "CheckJfcn cB" "tiny cB = 1 / 10 ^ 18" "Ftol cB = 1 / 10 ^ 8" "Gtol cB = 1 / 10 ^ 8"
    "UseBrent cB = False" "length (g cB) = 1" "length (h cB) = 1" "length (tmp cB) = 1"
    by (simp_all add: cB_def ex_cg_fields)
  obtain cg x fx fmin fold' where i: "initializations cB [1] = (cg, x, fx, fmin, fold')"
    by (cases "initializations cB [1]") auto
  note f = initializations_facts [OF i]
  have "length (jfcn cB [1]) = size_n cB" "length (g cB) = size_n cB" "length (h cB) = size_n cB"
    by (simp_all add: fB ex_wrong_jfcn_def)
  note d = initializations_directions [OF this i]
  have par: "MaxIt cg = m" "tiny cg = 1 / 10 ^ 18" "Ftol cg = 1 / 10 ^ 8" "Gtol cg = 1 / 10 ^ 8"
    "UseBrent cg = False" "CheckJfcn cg" "jfcn cg = ex_wrong_jfcn" "ffcn cg = ex_ffcn"
    "size_n cg = 1"
    using f(1) fB by (simp_all add: same_params_def)
  have v: "x = [1]" "fx = 1" "g cg = [- 3]" "length (tmp cg) = 1"
    using f d fB by (simp_all add: ex_ffcn_def ex_wrong_jfcn_def)
  have head: "loop_head ex_collab cB [1] 0 = Some (cg, x, fx, fmin, fold')" by (simp add: i)
  have runs: "NumIter cg < MaxIt cg" using m by (simp add: f par)
  have n1: "\<not> \<bar>VecDot (g cg) (g cg)\<bar> < tiny cg" by (simp add: v par VecDot_def)
  obtain cg1 x1 fmin1 where lm: "line_minimization ex_collab cg x fold' = (cg1, x1, fmin1)"
    by (cases "line_minimization ex_collab cg x fold'") auto
  have l1: "x1 = [1 / 2]" "fmin1 = 1 / 4" "tmp cg1 = tmp cg"
    using lm unfolding line_minimization_eq
    by (auto simp: linesearch_def par ex_collab_def v)
  have par1: "Ftol cg1 = 1 / 10 ^ 8" "tiny cg1 = 1 / 10 ^ 18" "Gtol cg1 = 1 / 10 ^ 8"
    "CheckJfcn cg1" "jfcn cg1 = ex_wrong_jfcn" "ffcn cg1 = ex_ffcn" "size_n cg1 = 1"
    using line_minimization_config [OF lm] par by (simp_all add: same_config_def same_params_def)
  have n2: "\<not> converged_on_f cg1 fmin1 fx"
    by (simp add: converged_on_f_def par1 l1 v)
  let ?cg2 = "update_gradient cg1 x1"
  have n3: "\<not> gradient_test ?cg2 x1 fmin1 < Gtol ?cg2"
    by (simp add: gradient_test_def update_gradient_def Let_def par1 l1 ex_wrong_jfcn_def
        Max_utl_def)
  have "no_exit_test ex_collab cg x fx fold'"
    using n1 n2 n3 by (simp add: no_exit_test_def lm)
  then show "pass_no_exit ex_collab cB [1] 0" by (simp add: pass_no_exit_def i)
  obtain t where t: "tmp cg = [t]" using v(4) by (cases "tmp cg") auto
  have "\<exists>cgp. check_gradient ex_collab ?cg2 x1 = Inl (JacobianIncorrect (1 / 2), cgp)"
    using q
    by (simp add: check_gradient_def checkJacobian_def checkJacobian_k_def update_gradient_def
        Let_def par1 l1 t copy_go_def ex_collab_def ex_ffcn_def ex_wrong_jfcn_def)
  then obtain cgp where "check_gradient ex_collab ?cg2 x1 = Inl (JacobianIncorrect (1 / 2), cgp)"
    by blast
  then have "body ex_collab cg x fx fmin fold' = Exit (Panic (JacobianIncorrect (1 / 2)) cgp x1)"
    using n1 n2 by (simp add: body_eq [OF lm])
  from iterations_Exit [OF runs this] have
    "Min ex_collab cB [1] = Panic (JacobianIncorrect (1 / 2)) cgp x1"
    by (simp add: Min_def i)
  then show "\<exists>cgp. Min ex_collab cB [1] = Panic (JacobianIncorrect (1 / 2)) cgp [1 / 2]"
    using l1 by blast
qed

section \<open>Properties of Min\<close>

text \<open>C10: when \<open>MaxIt\<close> is zero or negative, \<open>Min\<close> performs the initial evaluations: the
  objective is evaluated at \<open>x\<close> (\<open>fx\<close> and \<open>fmin\<close> hold \<open>f(x)\<close>), the gradient is
  evaluated at \<open>x\<close> (for vectors of the problem dimension, \<open>u\<close>, \<open>g\<close> and \<open>h\<close> hold its
  negative) and both counters are set to 1. The loop is never entered (there is no second
  loop test), and \<open>Min\<close> panics with the non-convergence error carrying the iteration count
  0, leaving \<open>x\<close> as it was. This holds for every objective and gradient, a gradient that
  vanishes at \<open>x\<close> included.\<close>

theorem C10_MaxIt_nonpositive:
  assumes "MaxIt cg0 \<le> 0"
  shows "\<exists>cg fx fmin fold'.
           initializations cg0 x0 = (cg, x0, fx, fmin, fold') \<and>
           Min c cg0 x0 = Panic (FailToConverge 0) cg x0 \<and>
           fx = ffcn cg0 x0 \<and> fmin = ffcn cg0 x0 \<and>
           NumFeval cg = 1 \<and> NumJeval cg = 1 \<and> NumIter cg = 0 \<and>
           loop_head c cg0 x0 1 = None \<and>
           (length (jfcn cg0 x0) = size_n cg0 \<and> length (g cg0) = size_n cg0 \<and>
            length (h cg0) = size_n cg0 \<longrightarrow>
              u cg = map uminus (jfcn cg0 x0) \<and> g cg = map uminus (jfcn cg0 x0) \<and>
              h cg = map uminus (jfcn cg0 x0))"
proof -
  from Min_without_iterations [OF assms, of x0 c] obtain cg fx fmin fold' where
    i: "initializations cg0 x0 = (cg, x0, fx, fmin, fold')" and
    r: "Min c cg0 x0 = Panic (FailToConverge 0) cg x0"
      "NumFeval cg = 1" "NumJeval cg = 1" "NumIter cg = 0" "loop_head c cg0 x0 1 = None"
    by blast
  note f = initializations_facts [OF i]
  have d: "u cg = map uminus (jfcn cg0 x0) \<and> g cg = map uminus (jfcn cg0 x0) \<and>
      h cg = map uminus (jfcn cg0 x0)"
    if "length (jfcn cg0 x0) = size_n cg0 \<and> length (g cg0) = size_n cg0 \<and>
        length (h cg0) = size_n cg0"
    using initializations_directions [OF _ _ _ i] that by simp
  from i r f(6,7) d show ?thesis by blast
qed

theorem C10_MaxIt_nonpositive_witness:
  "MaxIt (ex_cg\<lparr>MaxIt := 0\<rparr>) \<le> 0 \<and>
   length (jfcn (ex_cg\<lparr>MaxIt := 0\<rparr>) [1]) = size_n (ex_cg\<lparr>MaxIt := 0\<rparr>) \<and>
   length (g (ex_cg\<lparr>MaxIt := 0\<rparr>)) = size_n (ex_cg\<lparr>MaxIt := 0\<rparr>) \<and>
   length (h (ex_cg\<lparr>MaxIt := 0\<rparr>)) = size_n (ex_cg\<lparr>MaxIt := 0\<rparr>) \<and>
   (\<exists>cg fx fmin fold'.
      initializations (ex_cg\<lparr>MaxIt := 0\<rparr>) [1] = (cg, [1], fx, fmin, fold') \<and>
      Min ex_collab (ex_cg\<lparr>MaxIt := 0\<rparr>) [1] = Panic (FailToConverge 0) cg [1] \<and>
      fx = 1 \<and> fmin = 1 \<and> NumFeval cg = 1 \<and> NumJeval cg = 1 \<and> NumIter cg = 0 \<and>
      u cg = [- 2] \<and> g cg = [- 2] \<and> h cg = [- 2]) \<and>
   (\<exists>cg. Min ex_collab (ex_cg\<lparr>MaxIt := 0\<rparr>) [0] = Panic (FailToConverge 0) cg [0] \<and>
      g cg = [0])"
proof -
  let ?c0 = "ex_cg\<lparr>MaxIt := 0\<rparr>"
  have m: "MaxIt ?c0 \<le> 0" by simp
  have l: "length (jfcn ?c0 [a]) = size_n ?c0 \<and> length (g ?c0) = size_n ?c0 \<and>
      length (h ?c0) = size_n ?c0" for a
    by (simp add: ex_cg_fields ex_jfcn_def)
  from C10_MaxIt_nonpositive [OF m, of "[1]" ex_collab] l [of 1] obtain cg fx fmin fold' where
    a: "initializations ?c0 [1] = (cg, [1], fx, fmin, fold')"
      "Min ex_collab ?c0 [1] = Panic (FailToConverge 0) cg [1]"
      "fx = ffcn ?c0 [1]" "fmin = ffcn ?c0 [1]"
      "NumFeval cg = 1" "NumJeval cg = 1" "NumIter cg = 0"
      "u cg = map uminus (jfcn ?c0 [1])" "g cg = map uminus (jfcn ?c0 [1])"
      "h cg = map uminus (jfcn ?c0 [1])"
    by blast
  have v: "fx = 1" "fmin = 1" "u cg = [- 2]" "g cg = [- 2]" "h cg = [- 2]"
    using a(3,4,8,9,10) by (simp_all add: ex_cg_fields ex_ffcn_def ex_jfcn_def)
  from C10_MaxIt_nonpositive [OF m, of "[0]" ex_collab] l [of 0] obtain cgz where
    z: "Min ex_collab ?c0 [0] = Panic (FailToConverge 0) cgz [0]"
      "g cgz = map uminus (jfcn ?c0 [0])"
    by blast
  have "g cgz = [0]" using z(2) by (simp add: ex_cg_fields ex_jfcn_def)
  with m l [of 1] a(1,2,5,6,7) v z(1) show ?thesis by blast
qed

text \<open>C1: in every pass of the loop of \<open>Min\<close> that reaches the direction update, with
  \<open>gOld\<close> the gradient at the iterate \<open>x\<close> the pass starts from and \<open>gNew\<close> the gradient
  at the iterate \<open>x'\<close> the line minimization produced, the scaling factor is
  \<open>(gNew \<cdot> gNew) / (gOld \<cdot> gOld)\<close> with \<open>UseFRmethod\<close> and
  \<open>max 0 ((gOld - gNew) \<cdot> (- gNew)) / (gOld \<cdot> gOld)\<close> without it; the new direction is
  \<open>u = - gNew + \<gamma> h\<close>, \<open>g\<close> becomes \<open>- gNew\<close> and \<open>h\<close> becomes \<open>u\<close>.\<close>

theorem C1_direction_update:
  assumes wf: "well_formed c cg0" and lx: "length x0 = size_n cg0"
    and head: "loop_head c cg0 x0 n = Some (cg, x, fx, fmin, fold')"
    and runs: "NumIter cg < MaxIt cg"
    and upd: "body c cg x fx fmin fold' = Continue cg' x' fx' fmin' fold''"
  shows "let gOld = jfcn cg0 x; gNew = jfcn cg0 x';
             \<gamma> = (if UseFRmethod cg0 then VecDot gNew gNew / VecDot gOld gOld
                  else max 0 (VecDot (map2 (-) gOld gNew) (map uminus gNew)) / VecDot gOld gOld)
         in g cg = map uminus gOld \<and>
            u cg' = map2 (\<lambda>a b. - a + \<gamma> * b) gNew (h cg) \<and>
            g cg' = map uminus gNew \<and> h cg' = u cg'"
proof -
  from loop_head_invariant [OF wf lx head]
  have wfc: "well_formed c cg" and lc: "length x = size_n cg"
    and gi: "g cg = map uminus (jfcn cg x)" by simp_all
  from loop_head_params [OF head] have p: "jfcn cg = jfcn cg0" "UseFRmethod cg = UseFRmethod cg0"
    by (simp_all add: same_params_def)
  note r = body_Continue_directions [OF wfc lc gi upd, unfolded p]
  show ?thesis unfolding Let_def using gi r(4-6) by (simp add: p)
qed

theorem C1_direction_update_witness:
  "\<exists>cg x fx fmin fold' cg' x' fx' fmin' fold''.
     well_formed ex_collab ex_cg \<and> length [1::real] = size_n ex_cg \<and>
     loop_head ex_collab ex_cg [1] 0 = Some (cg, x, fx, fmin, fold') \<and>
     NumIter cg < MaxIt cg \<and>
     body ex_collab cg x fx fmin fold' = Continue cg' x' fx' fmin' fold'' \<and>
     x = [1] \<and> x' = [1 / 2] \<and> h cg = [- 2] \<and>
     u cg' = [- 1] \<and> g cg' = [- 1] \<and> h cg' = [- 1]"
proof -
  obtain cg x fx fmin fold' where i: "initializations ex_cg [1] = (cg, x, fx, fmin, fold')"
    by (cases "initializations ex_cg [1]") auto
  note e = ex_init [OF ex_cg_fields(1,2,3,5,6) i]
  have par: "MaxIt cg = 200" "tiny cg = 1 / 10 ^ 18" "Ftol cg = 1 / 10 ^ 8" "Gtol cg = 1 / 10 ^ 8"
    "UseBrent cg = False" "UseFRmethod cg = False" "CheckJfcn cg = False" "jfcn cg = ex_jfcn"
    "size_n cg = 1" "History cg = False"
    using e(7) by (simp_all add: same_params_def ex_cg_fields)
  have wf: "well_formed ex_collab ex_cg"
    by (rule ex_well_formed) (simp_all add: ex_cg_fields)
  have lx: "length [1::real] = size_n ex_cg" by (simp add: ex_cg_fields)
  have head: "loop_head ex_collab ex_cg [1] 0 = Some (cg, x, fx, fmin, fold')"
    by (simp add: i)
  have runs: "NumIter cg < MaxIt cg" by (simp add: e par)
  obtain cg1 x1 fmin1 where lm: "line_minimization ex_collab cg x fold' = (cg1, x1, fmin1)"
    by (cases "line_minimization ex_collab cg x fold'") auto
  have l1: "x1 = [1 / 2]" "fmin1 = 1 / 4"
    using lm unfolding line_minimization_eq
    by (auto simp: linesearch_def par ex_collab_def e)
  have sc1: "same_config cg cg1" using lm by (rule line_minimization_config)
  have par1: "Ftol cg1 = 1 / 10 ^ 8" "tiny cg1 = 1 / 10 ^ 18" "CheckJfcn cg1 = False"
    "jfcn cg1 = ex_jfcn" "size_n cg1 = 1" "Gtol cg1 = 1 / 10 ^ 8"
    using sc1 par by (simp_all add: same_config_def same_params_def)
  have n1: "\<not> \<bar>VecDot (g cg) (g cg)\<bar> < tiny cg"
    by (simp add: e par VecDot_def)
  have n2: "\<not> converged_on_f cg1 fmin1 fx"
    by (simp add: converged_on_f_def par1 l1 e)
  let ?cg2 = "update_gradient cg1 x1"
  have cj: "check_gradient ex_collab ?cg2 x1 = Inr ?cg2"
    by (simp add: check_gradient_def update_gradient_def Let_def par1)
  have n3: "\<not> gradient_test ?cg2 x1 fmin1 < Gtol ?cg2"
    by (simp add: gradient_test_def update_gradient_def Let_def par1 l1 ex_jfcn_def Max_utl_def)
  obtain nume cg4 where sn: "scaling_numerator ?cg2 = (nume, cg4)"
    by (cases "scaling_numerator ?cg2") auto
  have b: "body ex_collab cg x fx fmin fold' =
      Continue (update_directions cg4 (nume / VecDot (g cg) (g cg))) x1 fmin1 fmin1 fx"
    using n1 n2 n3 by (simp add: body_eq [OF lm] cj sn)
  note t = C1_direction_update [OF wf lx head runs b]
  have "u (update_directions cg4 (nume / VecDot (g cg) (g cg))) = [- 1]"
    "g (update_directions cg4 (nume / VecDot (g cg) (g cg))) = [- 1]"
    "h (update_directions cg4 (nume / VecDot (g cg) (g cg))) = [- 1]"
    using t by (simp_all add: Let_def ex_cg_fields ex_jfcn_def e l1 VecDot_def)
  then show ?thesis using wf lx head runs b e l1 by auto
qed

text \<open>C2: in every pass of the loop, once the line minimization has delivered \<open>fmin1\<close>
  (with the optimizer \<open>cg1\<close> and the point \<open>x1\<close> as it leaves them), \<open>Min\<close> returns
  \<open>fmin1\<close> at that point, in exactly that state, if and only if
  \<open>2 |fmin1 - fx| \<le> Ftol (|fmin1| + |fx| + 1e-18)\<close>, where \<open>fx\<close> is the function value
  the pass started with. In that state the gradient has not been evaluated again: the
  directions are those of the start of the pass and \<open>NumJeval\<close> has only grown by the
  count the line search reports.\<close>

theorem C2_function_value_exit:
  assumes head: "loop_head c cg0 x0 n = Some (cg, x, fx, fmin, fold')"
    and runs: "NumIter cg < MaxIt cg"
    and nz: "\<not> \<bar>VecDot (g cg) (g cg)\<bar> < tiny cg"
    and eps: "tiny cg = 1 / 10 ^ 18"
    and lm: "line_minimization c cg x fold' = (cg1, x1, fmin1)"
  shows "(Min c cg0 x0 = Return fmin1 cg1 x1 \<longleftrightarrow>
            2 * \<bar>fmin1 - fx\<bar> \<le> Ftol cg * (\<bar>fmin1\<bar> + \<bar>fx\<bar> + 1 / 10 ^ 18))
       \<and> fmin1 = fmin_ls (linesearch c cg x (u cg) True fold')
       \<and> x1 = x_ls (linesearch c cg x (u cg) True fold')
       \<and> u cg1 = u cg \<and> g cg1 = g cg \<and> h cg1 = h cg
       \<and> NumJeval cg1 = NumJeval cg + NumJeval_ls (linesearch c cg x (u cg) True fold')"
proof -
  let ?cond = "2 * \<bar>fmin1 - fx\<bar> \<le> Ftol cg * (\<bar>fmin1\<bar> + \<bar>fx\<bar> + 1 / 10 ^ 18)"
  have it: "iterations c cg x fx fmin fold' = Min c cg0 x0"
    using head by (rule loop_head_iterations)
  have sc1: "same_config cg cg1" using lm by (rule line_minimization_config)
  have "tiny cg1 = tiny cg" "Ftol cg1 = Ftol cg"
    using sc1 by (simp_all add: same_config_def same_params_def)
  then have conv: "converged_on_f cg1 fmin1 fx \<longleftrightarrow> ?cond"
    unfolding converged_on_f_def eps [symmetric] by (simp only:)
  have fields: "fmin1 = fmin_ls (linesearch c cg x (u cg) True fold')"
    "x1 = x_ls (linesearch c cg x (u cg) True fold')"
    "u cg1 = u cg" "g cg1 = g cg" "h cg1 = h cg"
    "NumJeval cg1 = NumJeval cg + NumJeval_ls (linesearch c cg x (u cg) True fold')"
    using lm unfolding line_minimization_eq by auto
  have "Min c cg0 x0 = Return fmin1 cg1 x1 \<longleftrightarrow> ?cond"
  proof
    assume r: "Min c cg0 x0 = Return fmin1 cg1 x1"
    show ?cond
    proof (rule ccontr)
      assume nc: "\<not> ?cond"
      let ?cg2 = "update_gradient cg1 x1"
      have nj2: "NumJeval ?cg2 = NumJeval cg1 + 1"
        by (simp add: update_gradient_def Let_def)
      show False
      proof (cases "body c cg x fx fmin fold'")
        case (Continue cg' x' fx' fmin' fold'')
        have "NumIter cg < NumIter (outcome_cg (iterations c cg x fx fmin fold'))"
          using runs Continue by (rule iterations_Continue_NumIter)
        then show False using sc1 by (simp add: it r same_config_def)
      next
        case (Exit out)
        have out: "out = Return fmin1 cg1 x1"
          using iterations_Exit [OF runs Exit] it r by simp
        show False
        proof (cases "check_gradient c ?cg2 x1")
          case (Inl p)
          then show False using Exit out nz nc conv
            by (cases p) (simp add: body_eq [OF lm])
        next
          case (Inr cg3)
          have "NumJeval cg3 = NumJeval ?cg2"
            using check_gradient_scratch(1) [OF Inr] by (rule only_scratch_fields)
          then have "cg3 \<noteq> cg1" using nj2 by auto
          then show False using Exit out nz nc conv Inr
            by (auto simp: body_eq [OF lm] split: if_splits prod.splits)
        qed
      qed
    qed
  next
    assume ?cond
    then have "body c cg x fx fmin fold' = Exit (Return fmin1 cg1 x1)"
      using nz conv by (simp add: body_eq [OF lm])
    then show "Min c cg0 x0 = Return fmin1 cg1 x1"
      using iterations_Exit [OF runs] it by simp
  qed
  then show ?thesis using fields by simp
qed

theorem C2_function_value_exit_witness:
  "\<exists>cg x fx fmin fold' cg1 x1 fmin1.
     loop_head ex_collab (ex_cg\<lparr>Ftol := 3\<rparr>) [1] 0 = Some (cg, x, fx, fmin, fold') \<and>
     NumIter cg < MaxIt cg \<and> \<not> \<bar>VecDot (g cg) (g cg)\<bar> < tiny cg \<and> tiny cg = 1 / 10 ^ 18 \<and>
     line_minimization ex_collab cg x fold' = (cg1, x1, fmin1) \<and>
     fx = 1 \<and> fmin1 = 1 / 4 \<and> x1 = [1 / 2] \<and>
     2 * \<bar>fmin1 - fx\<bar> \<le> Ftol cg * (\<bar>fmin1\<bar> + \<bar>fx\<bar> + 1 / 10 ^ 18) \<and>
     Min ex_collab (ex_cg\<lparr>Ftol := 3\<rparr>) [1] = Return fmin1 cg1 x1 \<and> u cg1 = [- 2]"
proof -
  let ?cg0 = "ex_cg\<lparr>Ftol := 3\<rparr>"
  obtain cg x fx fmin fold' where i: "initializations ?cg0 [1] = (cg, x, fx, fmin, fold')"
    by (cases "initializations ?cg0 [1]") auto
  have "size_n ?cg0 = 1" "ffcn ?cg0 = ex_ffcn" "jfcn ?cg0 = ex_jfcn"
    "length (g ?cg0) = 1" "length (h ?cg0) = 1"
    by (simp_all add: ex_cg_fields)
  note e = ex_init [OF this i]
  have par: "MaxIt cg = 200" "tiny cg = 1 / 10 ^ 18" "Ftol cg = 3" "UseBrent cg = False"
    using e(7) by (simp_all add: same_params_def ex_cg_fields)
  have head: "loop_head ex_collab ?cg0 [1] 0 = Some (cg, x, fx, fmin, fold')"
    by (simp add: i)
  have runs: "NumIter cg < MaxIt cg" by (simp add: e par)
  have nz: "\<not> \<bar>VecDot (g cg) (g cg)\<bar> < tiny cg"
    by (simp add: e par VecDot_def)
  obtain cg1 x1 fmin1 where lm: "line_minimization ex_collab cg x fold' = (cg1, x1, fmin1)"
    by (cases "line_minimization ex_collab cg x fold'") auto
  have l1: "x1 = [1 / 2]" "fmin1 = 1 / 4"
    using lm unfolding line_minimization_eq
    by (auto simp: linesearch_def par ex_collab_def e)
  note t = C2_function_value_exit [OF head runs nz par(2) lm]
  have cond: "2 * \<bar>fmin1 - fx\<bar> \<le> Ftol cg * (\<bar>fmin1\<bar> + \<bar>fx\<bar> + 1 / 10 ^ 18)"
    by (simp add: l1 e par)
  from t have iff: "Min ex_collab ?cg0 [1] = Return fmin1 cg1 x1 \<longleftrightarrow>
      2 * \<bar>fmin1 - fx\<bar> \<le> Ftol cg * (\<bar>fmin1\<bar> + \<bar>fx\<bar> + 1 / 10 ^ 18)"
    and u1: "u cg1 = u cg" by blast+
  from iff cond have "Min ex_collab ?cg0 [1] = Return fmin1 cg1 x1" by blast
  moreover have "u cg1 = [- 2]" using u1 e by simp
  moreover have "fx = 1" using e(2) by simp
  ultimately show ?thesis using head runs nz par(2) lm l1 cond by blast
qed

text \<open>C9: stated for every optimizer the property fails, namely when \<open>MaxIt\<close> is zero or
  negative: the loop is never entered and \<open>Min\<close> panics although the gradient vanishes.
  What holds: when \<open>MaxIt\<close> is at least 1 and the gradient at \<open>x\<close> has squared Euclidean
  norm below \<open>1e-18\<close>, \<open>Min\<close> returns the initial objective value \<open>f(x)\<close>, leaves \<open>x\<close> as
  it was, with \<open>NumIter = 0\<close> and \<open>NumFeval = NumJeval = 1\<close>, and the outcome is the same
  whatever the line searches are: none is invoked.\<close>

theorem C9_zero_gradient_return:
  assumes "1 \<le> MaxIt cg0" and "tiny cg0 = 1 / 10 ^ 18"
    and "length (jfcn cg0 x0) = size_n cg0" and "length (g cg0) = size_n cg0"
    and "length (h cg0) = size_n cg0"
    and "VecDot (jfcn cg0 x0) (jfcn cg0 x0) < 1 / 10 ^ 18"
  shows "\<exists>cg'. (\<forall>c. Min c cg0 x0 = Return (ffcn cg0 x0) cg' x0) \<and>
           NumIter cg' = 0 \<and> NumFeval cg' = 1 \<and> NumJeval cg' = 1"
proof -
  obtain cg x fx fmin fold' where i: "initializations cg0 x0 = (cg, x, fx, fmin, fold')"
    by (cases "initializations cg0 x0") auto
  have "\<forall>c. Min c cg0 x0 = Return (ffcn cg0 x0) cg x0"
    using Min_zero_gradient [OF assms i] by blast
  then show ?thesis using initializations_facts [OF i] by blast
qed

theorem C9_zero_gradient_return_witness:
  "1 \<le> MaxIt ex_cg \<and> tiny ex_cg = 1 / 10 ^ 18 \<and>
   VecDot (jfcn ex_cg [0]) (jfcn ex_cg [0]) < 1 / 10 ^ 18 \<and>
   (\<exists>cg'. Min ex_collab ex_cg [0] = Return 0 cg' [0] \<and>
      NumIter cg' = 0 \<and> NumFeval cg' = 1 \<and> NumJeval cg' = 1)"
proof -
  have h: "1 \<le> MaxIt ex_cg" "tiny ex_cg = 1 / 10 ^ 18"
    "length (jfcn ex_cg [0]) = size_n ex_cg" "length (g ex_cg) = size_n ex_cg"
    "length (h ex_cg) = size_n ex_cg"
    "VecDot (jfcn ex_cg [0]) (jfcn ex_cg [0]) < 1 / 10 ^ 18"
    by (simp_all add: ex_cg_fields ex_jfcn_def VecDot_def)
  from C9_zero_gradient_return [OF h] obtain cg' where
    "\<forall>c. Min c ex_cg [0] = Return (ffcn ex_cg [0]) cg' [0]"
    "NumIter cg' = 0" "NumFeval cg' = 1" "NumJeval cg' = 1" by blast
  moreover have "ffcn ex_cg [0] = 0" by (simp add: ex_cg_fields ex_ffcn_def)
  ultimately show ?thesis using h by auto
qed

theorem C9_counterexample:
  "VecDot (jfcn (ex_cg\<lparr>MaxIt := 0\<rparr>) [0]) (jfcn (ex_cg\<lparr>MaxIt := 0\<rparr>) [0]) < 1 / 10 ^ 18 \<and>
   \<not> returns_normally (Min ex_collab (ex_cg\<lparr>MaxIt := 0\<rparr>) [0])"
proof -
  have "MaxIt (ex_cg\<lparr>MaxIt := 0\<rparr>) \<le> 0" by simp
  from Min_without_iterations [OF this, of "[0]" ex_collab]
  have "\<not> returns_normally (Min ex_collab (ex_cg\<lparr>MaxIt := 0\<rparr>) [0])" by auto
  then show ?thesis by (simp add: ex_cg_fields ex_jfcn_def VecDot_def)
qed

text \<open>C5: at the top of every pass of the loop, when \<open>|g \<cdot> g|\<close> is below \<open>1e-18\<close>
  \<open>Min\<close> returns at once, with \<open>fmin\<close>, the optimizer and \<open>x\<close> as they are at the top of
  the pass. Hence in every pass that reaches the division \<open>nume / deno\<close> of the direction
  update, the denominator \<open>deno = g \<cdot> g\<close> is \<open>gOld \<cdot> gOld\<close> for the gradient \<open>gOld\<close> at
  the iterate the pass starts from, and \<open>|deno| \<ge> 1e-18\<close>.\<close>

theorem C5_degenerate_gradient_guard:
  assumes wf: "well_formed c cg0" and lx: "length x0 = size_n cg0"
    and head: "loop_head c cg0 x0 n = Some (cg, x, fx, fmin, fold')"
    and runs: "NumIter cg < MaxIt cg"
  shows "(\<bar>VecDot (g cg) (g cg)\<bar> < 1 / 10 ^ 18 \<longrightarrow> Min c cg0 x0 = Return fmin cg x) \<and>
         (body c cg x fx fmin fold' = Continue cg' x' fx' fmin' fold'' \<longrightarrow>
            (\<exists>cg3 nume cg4. scaling_numerator cg3 = (nume, cg4) \<and>
               cg' = update_directions cg4 (nume / VecDot (g cg) (g cg))) \<and>
            VecDot (g cg) (g cg) = VecDot (jfcn cg0 x) (jfcn cg0 x) \<and>
            1 / 10 ^ 18 \<le> \<bar>VecDot (jfcn cg0 x) (jfcn cg0 x)\<bar>)"
proof -
  from loop_head_invariant [OF wf lx head]
  have wfc: "well_formed c cg" and gi: "g cg = map uminus (jfcn cg x)" by simp_all
  from loop_head_params [OF head] have p: "jfcn cg = jfcn cg0"
    by (simp add: same_params_def)
  have eps: "tiny cg = 1 / 10 ^ 18" using wfc by (simp add: well_formed_def)
  have deno: "VecDot (g cg) (g cg) = VecDot (jfcn cg0 x) (jfcn cg0 x)"
    unfolding gi p by (rule VecDot_uminus)
  have it: "iterations c cg x fx fmin fold' = Min c cg0 x0"
    using head by (rule loop_head_iterations)
  have a: "Min c cg0 x0 = Return fmin cg x" if "\<bar>VecDot (g cg) (g cg)\<bar> < 1 / 10 ^ 18"
  proof -
    from that have "\<bar>VecDot (g cg) (g cg)\<bar> < tiny cg" unfolding eps .
    then have "body c cg x fx fmin fold' = Exit (Return fmin cg x)" by (rule body_exit1)
    from iterations_Exit [OF runs this] it show ?thesis by simp
  qed
  have b: "(\<exists>cg3 nume cg4. scaling_numerator cg3 = (nume, cg4) \<and>
               cg' = update_directions cg4 (nume / VecDot (g cg) (g cg))) \<and>
            VecDot (g cg) (g cg) = VecDot (jfcn cg0 x) (jfcn cg0 x) \<and>
            1 / 10 ^ 18 \<le> \<bar>VecDot (jfcn cg0 x) (jfcn cg0 x)\<bar>"
    if c: "body c cg x fx fmin fold' = Continue cg' x' fx' fmin' fold''"
  proof -
    from c obtain cg1 cg3 nume cg4 where
      n1: "\<not> \<bar>VecDot (g cg) (g cg)\<bar> < tiny cg" and
      sn: "scaling_numerator cg3 = (nume, cg4)" and
      ud: "cg' = update_directions cg4 (nume / VecDot (g cg) (g cg))"
      by (rule body_ContinueE)
    from n1 have "1 / 10 ^ 18 \<le> \<bar>VecDot (jfcn cg0 x) (jfcn cg0 x)\<bar>"
      unfolding eps deno by simp
    with sn ud deno show ?thesis by blast
  qed
  from a b show ?thesis by blast
qed

theorem C5_degenerate_gradient_guard_witness:
  "\<exists>cg x fx fmin fold' cgb xb fxb fminb foldb cg' x' fx' fmin' fold''.
     well_formed ex_collab ex_cg \<and>
     loop_head ex_collab ex_cg [0] 0 = Some (cg, x, fx, fmin, fold') \<and>
     NumIter cg < MaxIt cg \<and> \<bar>VecDot (g cg) (g cg)\<bar> < 1 / 10 ^ 18 \<and>
     Min ex_collab ex_cg [0] = Return fmin cg x \<and>
     loop_head ex_collab ex_cg [1] 0 = Some (cgb, xb, fxb, fminb, foldb) \<and>
     NumIter cgb < MaxIt cgb \<and>
     body ex_collab cgb xb fxb fminb foldb = Continue cg' x' fx' fmin' fold'' \<and>
     VecDot (g cgb) (g cgb) = 4 \<and>
     1 / 10 ^ 18 \<le> \<bar>VecDot (jfcn ex_cg xb) (jfcn ex_cg xb)\<bar>"
proof -
  have wf: "well_formed ex_collab ex_cg"
    by (rule ex_well_formed) (simp_all add: ex_cg_fields)
  have lx: "length [0::real] = size_n ex_cg" "length [1::real] = size_n ex_cg"
    by (simp_all add: ex_cg_fields)
  obtain cg x fx fmin fold' where i: "initializations ex_cg [0] = (cg, x, fx, fmin, fold')"
    by (cases "initializations ex_cg [0]") auto
  note e = ex_init [OF ex_cg_fields(1,2,3,5,6) i]
  have head: "loop_head ex_collab ex_cg [0] 0 = Some (cg, x, fx, fmin, fold')"
    by (simp add: i)
  have runs: "NumIter cg < MaxIt cg"
    using e(7,8) by (simp add: same_params_def ex_cg_fields)
  have z: "\<bar>VecDot (g cg) (g cg)\<bar> < 1 / 10 ^ 18" by (simp add: e VecDot_def)
  have r: "Min ex_collab ex_cg [0] = Return fmin cg x"
    using C5_degenerate_gradient_guard [OF wf lx(1) head runs] z by blast
  obtain cgb xb fxb fminb foldb where
    ib: "initializations ex_cg [1] = (cgb, xb, fxb, fminb, foldb)"
    by (cases "initializations ex_cg [1]") auto
  note eb = ex_init [OF ex_cg_fields(1,2,3,5,6) ib]
  have headb: "loop_head ex_collab ex_cg [1] 0 = Some (cgb, xb, fxb, fminb, foldb)"
    by (simp add: ib)
  have runsb: "NumIter cgb < MaxIt cgb"
    using eb(7,8) by (simp add: same_params_def ex_cg_fields)
  from ex_first_pass [OF ib] obtain cg' where
    b: "body ex_collab cgb xb fxb fminb foldb = Continue cg' [1 / 2] (1 / 4) (1 / 4) 1" by blast
  have d: "1 / 10 ^ 18 \<le> \<bar>VecDot (jfcn ex_cg xb) (jfcn ex_cg xb)\<bar>"
    using C5_degenerate_gradient_guard [OF wf lx(2) headb runsb] b by blast
  have "VecDot (g cgb) (g cgb) = 4" by (simp add: eb VecDot_def)
  with wf head runs z r headb runsb b d show ?thesis by blast
qed

text \<open>C7: stated for every optimizer the property fails, namely when \<open>MaxIt\<close> is zero or
  negative: whatever \<open>Gtol\<close> is, the loop is not entered and \<open>Min\<close> panics. What holds: when \<open>MaxIt\<close> is at least 1 and \<open>Gtol\<close> is
  set to any value \<open>G\<close> above the scaled gradient statistic of the first pass (which does
  not depend on \<open>Gtol\<close>), \<open>Min\<close> leaves in pass 0 with \<open>NumIter = 0\<close> and no second pass is
  entered; it returns normally, unless \<open>CheckJfcn\<close> is set and the verification of the
  gradient aborts.\<close>

theorem C7_large_Gtol:
  assumes m: "1 \<le> MaxIt cg0"
    and i: "initializations cg0 x0 = (cg, x, fx, fmin, fold')"
    and lm: "line_minimization c cg x fold' = (cg1, x1, fmin1)"
    and big: "gradient_test (update_gradient cg1 x1) x1 fmin1 < G"
  shows "NumIter (outcome_cg (Min c (cg0\<lparr>Gtol := G\<rparr>) x0)) = 0 \<and>
         loop_head c (cg0\<lparr>Gtol := G\<rparr>) x0 1 = None \<and>
         (returns_normally (Min c (cg0\<lparr>Gtol := G\<rparr>) x0) \<or>
          (CheckJfcn cg0 \<and>
           (\<exists>d cgp xp. Min c (cg0\<lparr>Gtol := G\<rparr>) x0 = Panic (JacobianIncorrect d) cgp xp)))"
proof -
  let ?cz = "cg0\<lparr>Gtol := G\<rparr>" and ?ch = "cg\<lparr>Gtol := G\<rparr>" and ?cl = "cg1\<lparr>Gtol := G\<rparr>"
  have iG: "initializations ?cz x0 = (?ch, x, fx, fmin, fold')"
    using i by (rule initializations_Gtol)
  have lmG: "line_minimization c ?ch x fold' = (?cl, x1, fmin1)"
    using lm by (rule line_minimization_Gtol)
  note f = initializations_facts [OF iG]
  have runs: "NumIter ?ch < MaxIt ?ch" using f(1,2) m by (simp add: same_params_def)
  let ?cu = "update_gradient ?cl x1"
  have sc2: "same_config ?ch ?cu"
    using line_minimization_config [OF lmG] update_gradient_config [of ?cl x1]
    by (rule same_config_trans)
  have t2: "gradient_test ?cu x1 fmin1 = gradient_test (update_gradient cg1 x1) x1 fmin1"
    by (rule gradient_test_cong) (simp_all add: update_gradient_def Let_def)
  have cj0: "CheckJfcn ?cu = CheckJfcn cg0" "Gtol ?cu = G"
    using sc2 f(1) by (simp_all add: same_config_def same_params_def)
  have "\<exists>out. body c ?ch x fx fmin fold' = Exit out \<and>
      (returns_normally out \<or> (CheckJfcn cg0 \<and> (\<exists>d cgp xp. out = Panic (JacobianIncorrect d) cgp xp)))"
  proof (cases "check_gradient c ?cu x1")
    case (Inl p)
    obtain e cgp where p: "p = (e, cgp)" by (cases p) auto
    from check_gradient_error [OF Inl [unfolded p]] cj0 obtain d where
      "CheckJfcn cg0" "e = JacobianIncorrect d" by auto
    then show ?thesis by (auto simp: body_eq [OF lmG] Inl p)
  next
    case (Inr cg3)
    have os: "only_scratch ?cu cg3" using Inr by (rule check_gradient_scratch)
    have "gradient_test cg3 x1 fmin1 = gradient_test ?cu x1 fmin1"
      by (rule gradient_test_cong)
        (use only_scratch_fields [OF os] in \<open>simp_all add: same_config_def same_params_def\<close>)
    moreover have "Gtol cg3 = G"
      using only_scratch_fields(6) [OF os] cj0 by (simp add: same_config_def same_params_def)
    ultimately have "gradient_test cg3 x1 fmin1 < Gtol cg3" using big t2 by simp
    then show ?thesis by (auto simp: body_eq [OF lmG] Inr)
  qed
  then obtain out where b: "body c ?ch x fx fmin fold' = Exit out"
    and k: "returns_normally out \<or>
      (CheckJfcn cg0 \<and> (\<exists>d cgp xp. out = Panic (JacobianIncorrect d) cgp xp))" by blast
  have M: "Min c ?cz x0 = out"
    using iterations_Exit [OF runs b] by (simp add: Min_def iG)
  have "NumIter (outcome_cg out) = 0"
    using body_Exit_config [OF b] f(2) by (simp add: same_config_def)
  moreover have "loop_head c ?cz x0 1 = None" using iG b by (rule loop_head_1_Exit)
  ultimately show ?thesis using k unfolding M by blast
qed

theorem C7_large_Gtol_witness:
  "\<exists>cg x fx fmin fold' cg1 x1 fmin1.
     1 \<le> MaxIt ex_cg \<and> initializations ex_cg [1] = (cg, x, fx, fmin, fold') \<and>
     line_minimization ex_collab cg x fold' = (cg1, x1, fmin1) \<and>
     gradient_test (update_gradient cg1 x1) x1 fmin1 = 1 \<and>
     NumIter (outcome_cg (Min ex_collab (ex_cg\<lparr>Gtol := 2\<rparr>) [1])) = 0 \<and>
     loop_head ex_collab (ex_cg\<lparr>Gtol := 2\<rparr>) [1] 1 = None \<and>
     returns_normally (Min ex_collab (ex_cg\<lparr>Gtol := 2\<rparr>) [1])"
proof -
  obtain cg x fx fmin fold' where i: "initializations ex_cg [1] = (cg, x, fx, fmin, fold')"
    by (cases "initializations ex_cg [1]") auto
  note e = ex_init [OF ex_cg_fields(1,2,3,5,6) i]
  have par: "UseBrent cg = False" "jfcn cg = ex_jfcn" "size_n cg = 1"
    using e(7) by (simp_all add: same_params_def ex_cg_fields)
  obtain cg1 x1 fmin1 where lm: "line_minimization ex_collab cg x fold' = (cg1, x1, fmin1)"
    by (cases "line_minimization ex_collab cg x fold'") auto
  have l1: "x1 = [1 / 2]" "fmin1 = 1 / 4"
    using lm unfolding line_minimization_eq
    by (auto simp: linesearch_def par ex_collab_def e)
  have par1: "jfcn cg1 = ex_jfcn" "size_n cg1 = 1"
    using line_minimization_config [OF lm] par by (simp_all add: same_config_def same_params_def)
  have t: "gradient_test (update_gradient cg1 x1) x1 fmin1 = 1"
    by (simp add: gradient_test_def update_gradient_def Let_def par1 l1 ex_jfcn_def Max_utl_def)
  have m: "1 \<le> MaxIt ex_cg" by (simp add: ex_cg_fields)
  have big: "gradient_test (update_gradient cg1 x1) x1 fmin1 < 2" by (simp add: t)
  have "\<not> CheckJfcn ex_cg" by (simp add: ex_cg_fields)
  with C7_large_Gtol [OF m i lm big]
  have "NumIter (outcome_cg (Min ex_collab (ex_cg\<lparr>Gtol := 2\<rparr>) [1])) = 0"
    "loop_head ex_collab (ex_cg\<lparr>Gtol := 2\<rparr>) [1] 1 = None"
    "returns_normally (Min ex_collab (ex_cg\<lparr>Gtol := 2\<rparr>) [1])" by blast+
  with m i lm t show ?thesis by blast
qed

theorem C7_counterexample:
  "\<not> returns_normally (Min ex_collab (ex_cg\<lparr>MaxIt := 0, Gtol := 10 ^ 100\<rparr>) [1])"
proof -
  have "MaxIt (ex_cg\<lparr>MaxIt := 0, Gtol := 10 ^ 100\<rparr>) \<le> 0" by simp
  from Min_without_iterations [OF this, of "[1]" ex_collab]
  show ?thesis by auto
qed

text \<open>C4: stated with the panic that carries the iteration count as the only outcome, the
  property fails when \<open>CheckJfcn\<close> is set and the verification of the gradient aborts a
  pass: no exit test holds, yet the panic is the one of the verification. What holds: when
  none of the three exit tests (degenerate gradient, convergence on the function value,
  convergence on the gradient) holds in any of the \<open>MaxIt\<close> passes, \<open>Min\<close> does not return
  normally. Either it reaches the end of the loop and panics with the non-convergence
  error, which carries the iteration count \<open>NumIter\<close>, equal to \<open>MaxIt\<close> (0 for a negative
  \<open>MaxIt\<close>); or \<open>CheckJfcn\<close> is set, the verification of the gradient aborts one of the
  passes, and \<open>Min\<close> panics with the error of the verification.\<close>

theorem C4_no_convergence_panics:
  assumes H: "\<forall>n < nat (MaxIt cg0). pass_no_exit c cg0 x0 n"
  shows "\<not> returns_normally (Min c cg0 x0) \<and>
         ((\<exists>cg' x' fx' fmin' fold'.
             loop_head c cg0 x0 (nat (MaxIt cg0)) = Some (cg', x', fx', fmin', fold') \<and>
             Min c cg0 x0 = Panic (FailToConverge (NumIter cg')) cg' x' \<and>
             NumIter cg' = max 0 (MaxIt cg0)) \<or>
          (CheckJfcn cg0 \<and>
           (\<exists>n cg x fx fmin fold' cg1 x1 fmin1 d cgp.
              n < nat (MaxIt cg0) \<and>
              loop_head c cg0 x0 n = Some (cg, x, fx, fmin, fold') \<and>
              line_minimization c cg x fold' = (cg1, x1, fmin1) \<and>
              check_gradient c (update_gradient cg1 x1) x1 = Inl (JacobianIncorrect d, cgp) \<and>
              Min c cg0 x0 = Panic (JacobianIncorrect d) cgp x1)))"
proof -
  let ?N = "nat (MaxIt cg0)"
  let ?J = "CheckJfcn cg0 \<and>
           (\<exists>n cg x fx fmin fold' cg1 x1 fmin1 d cgp.
              n < ?N \<and>
              loop_head c cg0 x0 n = Some (cg, x, fx, fmin, fold') \<and>
              line_minimization c cg x fold' = (cg1, x1, fmin1) \<and>
              check_gradient c (update_gradient cg1 x1) x1 = Inl (JacobianIncorrect d, cgp) \<and>
              Min c cg0 x0 = Panic (JacobianIncorrect d) cgp x1)"
  have step: "n \<le> ?N \<Longrightarrow> (\<exists>s. loop_head c cg0 x0 n = Some s) \<or> ?J" for n
  proof (induction n)
    case 0
    have "\<exists>s. loop_head c cg0 x0 0 = Some s" by (rule exI) (rule loop_head.simps(1))
    then show ?case by blast
  next
    case (Suc n)
    from Suc.prems have lt: "n < ?N" by simp
    from Suc have "(\<exists>s. loop_head c cg0 x0 n = Some s) \<or> ?J" by simp
    then show ?case
    proof
      assume ?J
      then show ?thesis by blast
    next
      assume "\<exists>s. loop_head c cg0 x0 n = Some s"
      then obtain s where s: "loop_head c cg0 x0 n = Some s" by blast
      obtain cg x fx fmin fold' where sv: "s = (cg, x, fx, fmin, fold')" by (cases s) auto
      note hd = s [unfolded sv]
      from loop_head_params [OF hd] have p: "MaxIt cg = MaxIt cg0" "NumIter cg = int n"
        "CheckJfcn cg = CheckJfcn cg0"
        by (simp_all add: same_params_def)
      with lt have runs: "NumIter cg < MaxIt cg" by simp
      from H lt hd have ne: "no_exit_test c cg x fx fold'"
        by (auto simp: pass_no_exit_def)
      obtain cg1 x1 fmin1 where lm: "line_minimization c cg x fold' = (cg1, x1, fmin1)"
        by (cases "line_minimization c cg x fold'") auto
      from no_exit_test_body [OF ne lm, of fmin] show ?thesis
      proof
        assume "\<exists>cg' x' fx' fmin' fold''. body c cg x fx fmin fold' = Continue cg' x' fx' fmin' fold''"
        then obtain cg' x' fx' fmin' fold'' where
          "body c cg x fx fmin fold' = Continue cg' x' fx' fmin' fold''" by blast
        with hd runs have "\<exists>s. loop_head c cg0 x0 (Suc n) = Some s" by simp
        then show ?thesis by blast
      next
        assume "CheckJfcn cg \<and>
          (\<exists>d cgp. check_gradient c (update_gradient cg1 x1) x1 = Inl (JacobianIncorrect d, cgp) \<and>
             body c cg x fx fmin fold' = Exit (Panic (JacobianIncorrect d) cgp x1))"
        then obtain d cgp where cj: "CheckJfcn cg"
          and ck: "check_gradient c (update_gradient cg1 x1) x1 = Inl (JacobianIncorrect d, cgp)"
          and b: "body c cg x fx fmin fold' = Exit (Panic (JacobianIncorrect d) cgp x1)"
          by blast
        have "Min c cg0 x0 = Panic (JacobianIncorrect d) cgp x1"
          using iterations_Exit [OF runs b] loop_head_iterations [OF hd] by simp
        with cj p(3) lt hd lm ck have ?J by blast
        then show ?thesis by blast
      qed
    qed
  qed
  from step [OF order_refl] show ?thesis
  proof
    assume j: ?J
    then have "\<not> returns_normally (Min c cg0 x0)" by auto
    with j show ?thesis by blast
  next
    assume "\<exists>s. loop_head c cg0 x0 ?N = Some s"
    then obtain s where s: "loop_head c cg0 x0 ?N = Some s" by blast
    obtain cg' x' fx' fmin' fold' where sv: "s = (cg', x', fx', fmin', fold')" by (cases s) auto
    note h = s [unfolded sv]
    from loop_head_params [OF h] have p: "MaxIt cg' = MaxIt cg0" "NumIter cg' = int ?N"
      by (simp_all add: same_params_def)
    then have stop: "\<not> NumIter cg' < MaxIt cg'" by simp
    have "iterations c cg' x' fx' fmin' fold' = Panic (FailToConverge (NumIter cg')) cg' x'"
      using stop by (subst iterations.simps) simp
    then have M: "Min c cg0 x0 = Panic (FailToConverge (NumIter cg')) cg' x'"
      using loop_head_iterations [OF h] by simp
    have "NumIter cg' = max 0 (MaxIt cg0)" using p by simp
    moreover have "\<not> returns_normally (Min c cg0 x0)" by (simp add: M)
    ultimately show ?thesis using h M by blast
  qed
qed

theorem C4_no_convergence_panics_witness:
  "nat (MaxIt (ex_cg\<lparr>MaxIt := 1\<rparr>)) = 1 \<and>
   pass_no_exit ex_collab (ex_cg\<lparr>MaxIt := 1\<rparr>) [1] 0 \<and>
   \<not> returns_normally (Min ex_collab (ex_cg\<lparr>MaxIt := 1\<rparr>) [1]) \<and>
   panic_error (Min ex_collab (ex_cg\<lparr>MaxIt := 1\<rparr>) [1]) = Some (FailToConverge 1)"
proof -
  let ?c0 = "ex_cg\<lparr>MaxIt := 1\<rparr>"
  have N: "nat (MaxIt ?c0) = 1" by simp
  obtain cg x fx fmin fold' where i: "initializations ?c0 [1] = (cg, x, fx, fmin, fold')"
    by (cases "initializations ?c0 [1]") auto
  have "size_n ?c0 = 1" "ffcn ?c0 = ex_ffcn" "jfcn ?c0 = ex_jfcn"
    "length (g ?c0) = 1" "length (h ?c0) = 1"
    by (simp_all add: ex_cg_fields)
  note e = ex_init [OF this i]
  have par: "tiny cg = 1 / 10 ^ 18" "Ftol cg = 1 / 10 ^ 8" "Gtol cg = 1 / 10 ^ 8"
    "UseBrent cg = False" "CheckJfcn cg = False" "jfcn cg = ex_jfcn" "size_n cg = 1"
    using e(7) by (simp_all add: same_params_def ex_cg_fields)
  have gv: "g cg = [- 2]" using e(5) by simp
  have "no_exit_condition ex_collab cg [1] 1 fold'"
    using par gv by (rule ex_pass_from_1)
  then have "no_exit_test ex_collab cg x fx fold'"
    using e(1,2) no_exit_condition_test by simp
  then have p0: "pass_no_exit ex_collab ?c0 [1] 0" by (simp add: pass_no_exit_def i)
  then have H: "\<forall>n < nat (MaxIt ?c0). pass_no_exit ex_collab ?c0 [1] n" by simp
  have ncj: "\<not> CheckJfcn ?c0" by (simp add: ex_cg_fields)
  from C4_no_convergence_panics [OF H] ncj obtain cg' x' where
    "\<not> returns_normally (Min ex_collab ?c0 [1])"
    "Min ex_collab ?c0 [1] = Panic (FailToConverge (NumIter cg')) cg' x'"
    "NumIter cg' = max 0 (MaxIt ?c0)"
    by blast
  moreover have "max 0 (MaxIt ?c0) = 1" by simp
  ultimately have "\<not> returns_normally (Min ex_collab ?c0 [1])"
    "panic_error (Min ex_collab ?c0 [1]) = Some (FailToConverge 1)"
    by simp_all
  with N p0 show ?thesis by blast
qed

theorem C4_counterexample:
  "nat (MaxIt (ex_cg\<lparr>MaxIt := 1, CheckJfcn := True, jfcn := ex_wrong_jfcn\<rparr>)) = 1 \<and>
   pass_no_exit ex_collab (ex_cg\<lparr>MaxIt := 1, CheckJfcn := True, jfcn := ex_wrong_jfcn\<rparr>) [1] 0 \<and>
   panic_error (Min ex_collab (ex_cg\<lparr>MaxIt := 1, CheckJfcn := True, jfcn := ex_wrong_jfcn\<rparr>) [1])
     = Some (JacobianIncorrect (1 / 2))"
proof -
  have "(1::int) \<le> 1" by simp
  from ex_wrong_gradient_run [OF this] show ?thesis by auto
qed

text \<open>C8: \<open>NumFeval\<close> and \<open>NumJeval\<close> are both set to 1 by the initializations of every call
  of \<open>Min\<close>, whatever they held before. From then on each update adds a quantity that is
  not negative, given that the line searches report counts that are not negative: the line
  minimization adds the counts of the line search, the gradient evaluation adds 1 to
  \<open>NumJeval\<close>, the verification of the gradient only raises \<open>NumFeval\<close>. So at every loop
  test both counters are at least 1, they do not decrease from one loop test to a later
  one, and what \<open>Min\<close> leaves is at least what they were at any loop test.\<close>

theorem C8_counters:
  assumes nn: "counts_nonneg c"
  shows "(initializations cg0 x0 = (cgi, xi, fxi, fmini, foldi) \<longrightarrow>
            NumFeval cgi = 1 \<and> NumJeval cgi = 1) \<and>
         (line_minimization c cg x fold' = (cg1, x1, fmin1) \<longrightarrow>
            NumFeval cg1 = NumFeval cg + NumFeval_ls (linesearch c cg x (u cg) True fold') \<and>
            0 \<le> NumFeval_ls (linesearch c cg x (u cg) True fold') \<and>
            NumJeval cg1 = NumJeval cg + NumJeval_ls (linesearch c cg x (u cg) True fold') \<and>
            0 \<le> NumJeval_ls (linesearch c cg x (u cg) True fold')) \<and>
         NumFeval (update_gradient cg1 x1) = NumFeval cg1 \<and>
         NumJeval (update_gradient cg1 x1) = NumJeval cg1 + 1 \<and>
         (check_gradient c cg2 x2 = Inr cg3 \<or> check_gradient c cg2 x2 = Inl (e, cg3) \<longrightarrow>
            NumFeval cg2 \<le> NumFeval cg3 \<and> NumJeval cg3 = NumJeval cg2) \<and>
         (loop_head c cg0 x0 n = Some (cga, xa, fxa, fmina, folda) \<longrightarrow>
            1 \<le> NumFeval cga \<and> 1 \<le> NumJeval cga \<and>
            counters_le cga (outcome_cg (Min c cg0 x0)) \<and>
            (loop_head c cg0 x0 (n + k) = Some (cgb, xb, fxb, fminb, foldb) \<longrightarrow>
               counters_le cga cgb))"
proof -
  have 1: "NumFeval cgi = 1 \<and> NumJeval cgi = 1"
    if "initializations cg0 x0 = (cgi, xi, fxi, fmini, foldi)"
    using initializations_facts [OF that] by simp
  have 2: "NumFeval cg1 = NumFeval cg + NumFeval_ls (linesearch c cg x (u cg) True fold') \<and>
            0 \<le> NumFeval_ls (linesearch c cg x (u cg) True fold') \<and>
            NumJeval cg1 = NumJeval cg + NumJeval_ls (linesearch c cg x (u cg) True fold') \<and>
            0 \<le> NumJeval_ls (linesearch c cg x (u cg) True fold')"
    if "line_minimization c cg x fold' = (cg1, x1, fmin1)"
    using line_minimization_counters [OF that] linesearch_counts [OF nn, of cg x "u cg" True fold']
    by simp
  have 3: "NumFeval cg2 \<le> NumFeval cg3 \<and> NumJeval cg3 = NumJeval cg2"
    if "check_gradient c cg2 x2 = Inr cg3 \<or> check_gradient c cg2 x2 = Inl (e, cg3)"
    using check_gradient_counters [OF that] by simp
  have 4: "1 \<le> NumFeval cga \<and> 1 \<le> NumJeval cga \<and>
            counters_le cga (outcome_cg (Min c cg0 x0)) \<and>
            (loop_head c cg0 x0 (n + k) = Some (cgb, xb, fxb, fminb, foldb) \<longrightarrow>
               counters_le cga cgb)"
    if a: "loop_head c cg0 x0 n = Some (cga, xa, fxa, fmina, folda)"
  proof -
    obtain cgz xz fxz fminz foldz where z: "initializations cg0 x0 = (cgz, xz, fxz, fminz, foldz)"
      by (cases "initializations cg0 x0") auto
    have z0: "loop_head c cg0 x0 0 = Some (cgz, xz, fxz, fminz, foldz)" by (simp add: z)
    have "counters_le cgz cga"
      using loop_head_counters [OF nn z0, of n] a by simp
    then have "1 \<le> NumFeval cga \<and> 1 \<le> NumJeval cga"
      using initializations_facts [OF z] by (simp add: counters_le_def)
    moreover have "counters_le cga (outcome_cg (Min c cg0 x0))"
      using iterations_counters [OF nn, of cga xa fxa fmina folda] loop_head_iterations [OF a]
      by simp
    moreover have "loop_head c cg0 x0 (n + k) = Some (cgb, xb, fxb, fminb, foldb) \<longrightarrow>
               counters_le cga cgb"
      using loop_head_counters [OF nn a] by blast
    ultimately show ?thesis by blast
  qed
  from 1 2 3 4 show ?thesis by (simp add: update_gradient_counters)
qed

theorem C8_counters_witness:
  "counts_nonneg ex_collab \<and>
   (\<exists>cgi xi fxi fmini foldi cg1 x1 fmin1 cgb xb fxb fminb foldb cg3.
      initializations (ex_cg\<lparr>NumFeval := 77, NumJeval := 55\<rparr>) [1] = (cgi, xi, fxi, fmini, foldi) \<and>
      NumFeval cgi = 1 \<and> NumJeval cgi = 1 \<and>
      line_minimization ex_collab cgi xi foldi = (cg1, x1, fmin1) \<and>
      NumFeval cg1 = 3 \<and> NumJeval cg1 = 2 \<and> NumJeval (update_gradient cg1 x1) = 3 \<and>
      check_gradient ex_collab (ex_cg\<lparr>CheckJfcn := True, u := [1]\<rparr>) [1 / 2] = Inr cg3 \<and>
      NumFeval (ex_cg\<lparr>CheckJfcn := True, u := [1]\<rparr>) \<le> NumFeval cg3 \<and>
      loop_head ex_collab (ex_cg\<lparr>NumFeval := 77, NumJeval := 55\<rparr>) [1] 0
        = Some (cgi, xi, fxi, fmini, foldi) \<and>
      loop_head ex_collab (ex_cg\<lparr>NumFeval := 77, NumJeval := 55\<rparr>) [1] (0 + 1)
        = Some (cgb, xb, fxb, fminb, foldb) \<and>
      counters_le cgi cgb \<and>
      counters_le cgi (outcome_cg (Min ex_collab (ex_cg\<lparr>NumFeval := 77, NumJeval := 55\<rparr>) [1])))"
proof -
  let ?c0 = "ex_cg\<lparr>NumFeval := 77, NumJeval := 55\<rparr>"
  let ?c2 = "ex_cg\<lparr>CheckJfcn := True, u := [1]\<rparr>"
  have nn: "counts_nonneg ex_collab" by (simp add: counts_nonneg_def ex_collab_def)
  obtain cgi xi fxi fmini foldi where i: "initializations ?c0 [1] = (cgi, xi, fxi, fmini, foldi)"
    by (cases "initializations ?c0 [1]") auto
  have "size_n ?c0 = 1" "ffcn ?c0 = ex_ffcn" "jfcn ?c0 = ex_jfcn"
    "length (g ?c0) = 1" "length (h ?c0) = 1"
    by (simp_all add: ex_cg_fields)
  note e = ex_init [OF this i]
  have par: "tiny cgi = 1 / 10 ^ 18" "Ftol cgi = 1 / 10 ^ 8" "Gtol cgi = 1 / 10 ^ 8"
    "UseBrent cgi = False" "CheckJfcn cgi = False" "jfcn cgi = ex_jfcn" "size_n cgi = 1"
    "MaxIt cgi = 200"
    using e(7) by (simp_all add: same_params_def ex_cg_fields)
  have gv: "g cgi = [- 2]" using e(5) by simp
  have xv: "xi = [1]" "fxi = 1" using e(1,2) by simp_all
  obtain cg1 x1 fmin1 where lm: "line_minimization ex_collab cgi xi foldi = (cg1, x1, fmin1)"
    by (cases "line_minimization ex_collab cgi xi foldi") auto
  have ls: "NumFeval_ls (linesearch ex_collab cgi xi (u cgi) True foldi) = 2"
    "NumJeval_ls (linesearch ex_collab cgi xi (u cgi) True foldi) = 1"
    by (simp_all add: linesearch_def par ex_collab_def)
  have h0: "loop_head ex_collab ?c0 [1] 0 = Some (cgi, xi, fxi, fmini, foldi)"
    by (simp add: i)
  have "no_exit_condition ex_collab cgi [1] 1 foldi"
    using par(1-7) gv by (rule ex_pass_from_1)
  then obtain cg' x' fx' fmin' fold'' where
    b: "body ex_collab cgi xi fxi fmini foldi = Continue cg' x' fx' fmin' fold''"
    using no_exit_Continue unfolding xv by blast
  have h1: "loop_head ex_collab ?c0 [1] (0 + 1)
      = Some (cg'\<lparr>NumIter := NumIter cg' + 1\<rparr>, x', fx', fmin', fold'')"
    using b e(8) par(8) by (simp add: i)
  from ex_check_gradient [of ?c2 "1 / 2"] obtain cg3 where
    cj: "check_gradient ex_collab ?c2 [1 / 2] = Inr cg3"
    by (auto simp: ex_cg_fields)
  note t = C8_counters [OF nn, of ?c0 "[1]" cgi xi fxi fmini foldi cgi xi foldi cg1 x1 fmin1
      ?c2 "[1 / 2]" cg3 _ 0 cgi xi fxi fmini foldi 1 "cg'\<lparr>NumIter := NumIter cg' + 1\<rparr>" x' fx' fmin' fold'']
  from t i have c1: "NumFeval cgi = 1" "NumJeval cgi = 1" by blast+
  from t lm ls c1 have c2: "NumFeval cg1 = 3" "NumJeval cg1 = 2" by auto
  from t c2 have c3: "NumJeval (update_gradient cg1 x1) = 3" by auto
  from t cj have c4: "NumFeval ?c2 \<le> NumFeval cg3" by blast
  from t h0 h1 have c5: "counters_le cgi (cg'\<lparr>NumIter := NumIter cg' + 1\<rparr>)"
    "counters_le cgi (outcome_cg (Min ex_collab ?c0 [1]))" by blast+
  from nn i c1 lm c2 c3 cj c4 h0 h1 c5 show ?thesis by blast
qed

text \<open>C3: in every pass of the loop that evaluates the gradient again at the new iterate
  \<open>x1\<close> (and passes the optional verification), the statistic of the gradient test is
  \<open>test = max\<^sub>j |grad\<^sub>j| max(|x1\<^sub>j|, 1) / max(fx, 1)\<close>, with \<open>grad\<close> the gradient at
  \<open>x1\<close> and \<open>fx\<close> the function value just updated to the \<open>fmin1\<close> of the line minimization
  (itself, not its absolute value), and \<open>Min\<close> returns \<open>fmin1\<close> at that point if and only if
  \<open>test < Gtol\<close>.\<close>

theorem C3_gradient_exit:
  assumes wf: "well_formed c cg0" and lx: "length x0 = size_n cg0"
    and pos: "0 < size_n cg0"
    and head: "loop_head c cg0 x0 n = Some (cg, x, fx, fmin, fold')"
    and runs: "NumIter cg < MaxIt cg"
    and nz: "\<not> \<bar>VecDot (g cg) (g cg)\<bar> < tiny cg"
    and lm: "line_minimization c cg x fold' = (cg1, x1, fmin1)"
    and nc: "\<not> converged_on_f cg1 fmin1 fx"
    and chk: "check_gradient c (update_gradient cg1 x1) x1 = Inr cg3"
  shows "let grad = jfcn cg0 x1;
             test = Max ((\<lambda>j. \<bar>grad ! j\<bar> * max \<bar>x1 ! j\<bar> 1 / max fmin1 1) ` {..<size_n cg0})
         in gradient_test cg3 x1 fmin1 = test \<and>
            (Min c cg0 x0 = Return fmin1 cg3 x1 \<longleftrightarrow> test < Gtol cg0) \<and>
            length grad = size_n cg0 \<and> length x1 = size_n cg0"
proof -
  let ?grad = "jfcn cg0 x1"
  let ?test = "Max ((\<lambda>j. \<bar>?grad ! j\<bar> * max \<bar>x1 ! j\<bar> 1 / max fmin1 1) ` {..<size_n cg0})"
  from loop_head_invariant [OF wf lx head]
  have wfc: "well_formed c cg" and lc: "length x = size_n cg" by simp_all
  from loop_head_params [OF head] have p: "jfcn cg = jfcn cg0" "size_n cg = size_n cg0"
    "Gtol cg = Gtol cg0"
    by (simp_all add: same_params_def)
  have it: "iterations c cg x fx fmin fold' = Min c cg0 x0"
    using head by (rule loop_head_iterations)
  have sc1: "same_config cg cg1" using lm by (rule line_minimization_config)
  have x1: "x1 = x_ls (linesearch c cg x (u cg) True fold')"
    using lm unfolding line_minimization_eq by auto
  have lx1: "length x1 = size_n cg0"
    unfolding x1 using linesearch_length [OF wfc lc] p by simp
  have lg: "length ?grad = size_n cg0"
    using wfc lx1 p by (simp add: well_formed_def)
  let ?cg2 = "update_gradient cg1 x1"
  have os: "only_scratch ?cg2 cg3" using chk by (rule check_gradient_scratch)
  have sc3: "same_config cg cg3"
    using sc1 update_gradient_config [of cg1 x1] only_scratch_fields(6) [OF os]
    by (blast intro: same_config_trans)
  have f3: "u cg3 = ?grad" "size_n cg3 = size_n cg0" "Gtol cg3 = Gtol cg0" "NumIter cg3 = NumIter cg"
    using only_scratch_fields(1) [OF os] sc1 sc3 p
    by (simp_all add: update_gradient_def Let_def same_config_def same_params_def)
  have gt: "gradient_test cg3 x1 fmin1 = ?test"
    using gradient_test_Max [of cg3 x1 fmin1] pos by (simp add: f3)
  have "Min c cg0 x0 = Return fmin1 cg3 x1 \<longleftrightarrow> ?test < Gtol cg0"
  proof
    assume r: "Min c cg0 x0 = Return fmin1 cg3 x1"
    show "?test < Gtol cg0"
    proof (rule ccontr)
      assume "\<not> ?test < Gtol cg0"
      then have n3: "\<not> gradient_test cg3 x1 fmin1 < Gtol cg3" by (simp add: gt f3)
      obtain nume cg4 where sn: "scaling_numerator cg3 = (nume, cg4)"
        by (cases "scaling_numerator cg3") auto
      have "body c cg x fx fmin fold' =
          Continue (update_directions cg4 (nume / VecDot (g cg) (g cg))) x1 fmin1 fmin1 fx"
        using nz nc n3 by (simp add: body_eq [OF lm] chk sn)
      from iterations_Continue_NumIter [OF runs this]
      show False by (simp add: it r f3)
    qed
  next
    assume "?test < Gtol cg0"
    then have "gradient_test cg3 x1 fmin1 < Gtol cg3" by (simp add: gt f3)
    then have "body c cg x fx fmin fold' = Exit (Return fmin1 cg3 x1)"
      using nz nc by (simp add: body_eq [OF lm] chk)
    from iterations_Exit [OF runs this] it show "Min c cg0 x0 = Return fmin1 cg3 x1" by simp
  qed
  with gt lg lx1 show ?thesis by (simp add: Let_def)
qed

theorem C3_gradient_exit_witness:
  "\<exists>cg x fx fmin fold' cg1 x1 fmin1 cg3.
     well_formed ex_collab (ex_cg\<lparr>Gtol := 2\<rparr>) \<and> length [1::real] = size_n (ex_cg\<lparr>Gtol := 2\<rparr>) \<and>
     0 < size_n (ex_cg\<lparr>Gtol := 2\<rparr>) \<and>
     loop_head ex_collab (ex_cg\<lparr>Gtol := 2\<rparr>) [1] 0 = Some (cg, x, fx, fmin, fold') \<and>
     NumIter cg < MaxIt cg \<and> \<not> \<bar>VecDot (g cg) (g cg)\<bar> < tiny cg \<and>
     line_minimization ex_collab cg x fold' = (cg1, x1, fmin1) \<and>
     \<not> converged_on_f cg1 fmin1 fx \<and>
     check_gradient ex_collab (update_gradient cg1 x1) x1 = Inr cg3 \<and>
     x1 = [1 / 2] \<and> fmin1 = 1 / 4 \<and>
     gradient_test cg3 x1 fmin1 = 1 \<and>
     Min ex_collab (ex_cg\<lparr>Gtol := 2\<rparr>) [1] = Return fmin1 cg3 x1"
proof -
  let ?c0 = "ex_cg\<lparr>Gtol := 2\<rparr>"
  have wf: "well_formed ex_collab ?c0"
    by (rule ex_well_formed) (simp_all add: ex_cg_fields)
  have lx: "length [1::real] = size_n ?c0" and pos: "0 < size_n ?c0"
    by (simp_all add: ex_cg_fields)
  obtain cg x fx fmin fold' where i: "initializations ?c0 [1] = (cg, x, fx, fmin, fold')"
    by (cases "initializations ?c0 [1]") auto
  have "size_n ?c0 = 1" "ffcn ?c0 = ex_ffcn" "jfcn ?c0 = ex_jfcn"
    "length (g ?c0) = 1" "length (h ?c0) = 1"
    by (simp_all add: ex_cg_fields)
  note e = ex_init [OF this i]
  have par: "MaxIt cg = 200" "tiny cg = 1 / 10 ^ 18" "Ftol cg = 1 / 10 ^ 8"
    "UseBrent cg = False" "CheckJfcn cg = False" "jfcn cg = ex_jfcn" "size_n cg = 1"
    using e(7) by (simp_all add: same_params_def ex_cg_fields)
  have head: "loop_head ex_collab ?c0 [1] 0 = Some (cg, x, fx, fmin, fold')"
    by (simp add: i)
  have runs: "NumIter cg < MaxIt cg" by (simp add: e par)
  have nz: "\<not> \<bar>VecDot (g cg) (g cg)\<bar> < tiny cg" by (simp add: e par VecDot_def)
  obtain cg1 x1 fmin1 where lm: "line_minimization ex_collab cg x fold' = (cg1, x1, fmin1)"
    by (cases "line_minimization ex_collab cg x fold'") auto
  have l1: "x1 = [1 / 2]" "fmin1 = 1 / 4"
    using lm unfolding line_minimization_eq
    by (auto simp: linesearch_def par ex_collab_def e)
  have par1: "Ftol cg1 = 1 / 10 ^ 8" "tiny cg1 = 1 / 10 ^ 18" "CheckJfcn cg1 = False"
    using line_minimization_config [OF lm] par by (simp_all add: same_config_def same_params_def)
  have nc: "\<not> converged_on_f cg1 fmin1 fx"
    by (simp add: converged_on_f_def par1 l1 e)
  have chk: "check_gradient ex_collab (update_gradient cg1 x1) x1 = Inr (update_gradient cg1 x1)"
    by (simp add: check_gradient_def update_gradient_def Let_def par1)
  note t = C3_gradient_exit [OF wf lx pos head runs nz lm nc chk, unfolded Let_def]
  have v: "Max ((\<lambda>j. \<bar>jfcn ?c0 x1 ! j\<bar> * max \<bar>x1 ! j\<bar> 1 / max fmin1 1) ` {..<size_n ?c0}) = 1"
    by (simp add: ex_cg_fields l1 ex_jfcn_def lessThan_Suc)
  from t have "gradient_test (update_gradient cg1 x1) x1 fmin1 = 1"
    "Min ex_collab ?c0 [1] = Return fmin1 (update_gradient cg1 x1) x1"
    unfolding v by simp_all
  with wf lx pos head runs nz lm nc chk l1 show ?thesis by blast
qed

text \<open>C6: with \<open>CheckJfcn\<close> set, in every pass of the loop the gradient evaluated again
  at the new iterate \<open>x1\<close> is compared, coordinate by coordinate in increasing order, with
  the estimate \<open>DerivCen5\<close> returns for the objective along coordinate \<open>k\<close>, evaluated on
  copies of \<open>x1\<close> in which only entry \<open>k\<close> is replaced (step \<open>1e-3\<close>); \<open>x1\<close> itself is not
  written. When every absolute difference is at most \<open>1e-12\<close> the verification lets the
  pass go on and the pass does not panic; at the first coordinate whose difference exceeds
  \<open>1e-12\<close> \<open>Min\<close> panics, reporting that difference, with the point still \<open>x1\<close>.\<close>

theorem C6_Jacobian_check:
  assumes wf: "well_formed c cg0" and lx: "length x0 = size_n cg0"
    and cj: "CheckJfcn cg0"
    and head: "loop_head c cg0 x0 n = Some (cg, x, fx, fmin, fold')"
    and runs: "NumIter cg < MaxIt cg"
    and nz: "\<not> \<bar>VecDot (g cg) (g cg)\<bar> < tiny cg"
    and lm: "line_minimization c cg x fold' = (cg1, x1, fmin1)"
    and nc: "\<not> converged_on_f cg1 fmin1 fx"
  shows "let dev = (\<lambda>k. \<bar>jfcn cg0 x1 ! k
                        - DerivCen5 c (x1 ! k) (1 / 10 ^ 3) (\<lambda>xk. ffcn cg0 (x1[k := xk]))\<bar>)
         in ((\<forall>k < size_n cg0. dev k \<le> 1 / 10 ^ 12) \<longrightarrow>
               (\<exists>cg3. check_gradient c (update_gradient cg1 x1) x1 = Inr cg3) \<and>
               (\<forall>e cgp xp. body c cg x fx fmin fold' \<noteq> Exit (Panic e cgp xp))) \<and>
            (k < size_n cg0 \<and> 1 / 10 ^ 12 < dev k \<and> (\<forall>j < k. dev j \<le> 1 / 10 ^ 12) \<longrightarrow>
               (\<exists>cgp. Min c cg0 x0 = Panic (JacobianIncorrect (dev k)) cgp x1))"
proof -
  let ?dev = "\<lambda>k. \<bar>jfcn cg0 x1 ! k
                        - DerivCen5 c (x1 ! k) (1 / 10 ^ 3) (\<lambda>xk. ffcn cg0 (x1[k := xk]))\<bar>"
  from loop_head_invariant [OF wf lx head]
  have wfc: "well_formed c cg" and lc: "length x = size_n cg" by simp_all
  from loop_head_params [OF head] have p: "jfcn cg = jfcn cg0" "size_n cg = size_n cg0"
    "ffcn cg = ffcn cg0" "CheckJfcn cg = CheckJfcn cg0"
    by (simp_all add: same_params_def)
  have it: "iterations c cg x fx fmin fold' = Min c cg0 x0"
    using head by (rule loop_head_iterations)
  have sc1: "same_config cg cg1" using lm by (rule line_minimization_config)
  have x1: "x1 = x_ls (linesearch c cg x (u cg) True fold')" and t1: "tmp cg1 = tmp cg"
    using lm unfolding line_minimization_eq by auto
  have lx1: "length x1 = size_n cg0"
    unfolding x1 using linesearch_length [OF wfc lc] p by simp
  let ?cg2 = "update_gradient cg1 x1"
  have f2: "u ?cg2 = jfcn cg0 x1" "ffcn ?cg2 = ffcn cg0" "size_n ?cg2 = size_n cg0"
    "CheckJfcn ?cg2" "tmp ?cg2 = tmp cg"
    using sc1 p cj t1 by (simp_all add: update_gradient_def Let_def same_config_def same_params_def)
  have lt: "length (tmp ?cg2) = length x1"
    using wfc lx1 p f2(5) by (simp add: well_formed_def)
  have dev: "Jacobian_deviation c ?cg2 x1 k = ?dev k" for k
    by (simp add: Jacobian_deviation_def f2)
  have cg: "check_gradient c ?cg2 x1 = checkJacobian_loop c x1 [0..<size_n cg0] ?cg2"
    by (simp add: check_gradient_def checkJacobian_def f2)
  have pass: "(\<exists>cg3. check_gradient c ?cg2 x1 = Inr cg3) \<and>
               (\<forall>e cgp xp. body c cg x fx fmin fold' \<noteq> Exit (Panic e cgp xp))"
    if a: "\<forall>k < size_n cg0. ?dev k \<le> 1 / 10 ^ 12"
  proof -
    from a have "\<forall>k \<in> set [0..<size_n cg0]. Jacobian_deviation c ?cg2 x1 k \<le> 1 / 10 ^ 12"
      by (simp add: dev)
    from checkJacobian_loop_pass [OF lt this] obtain cg3 where
      c3: "check_gradient c ?cg2 x1 = Inr cg3" unfolding cg by blast
    have "body c cg x fx fmin fold' \<noteq> Exit (Panic e cgp xp)" for e cgp xp
      using nz nc by (auto simp: body_eq [OF lm] c3 split: prod.splits)
    with c3 show ?thesis by blast
  qed
  have fail: "\<exists>cgp. Min c cg0 x0 = Panic (JacobianIncorrect (?dev k)) cgp x1"
    if a: "k < size_n cg0 \<and> 1 / 10 ^ 12 < ?dev k \<and> (\<forall>j < k. ?dev j \<le> 1 / 10 ^ 12)"
  proof -
    from a have k: "k < size_n cg0" by simp
    have sp: "[0..<size_n cg0] = [0..<k] @ k # [Suc k..<size_n cg0]"
      using k by (metis le0 upt_conv_Cons upt_add_eq_append le_add_diff_inverse less_imp_le_nat add_0)
    have b1: "\<forall>j \<in> set [0..<k]. Jacobian_deviation c ?cg2 x1 j \<le> 1 / 10 ^ 12"
      using a by (simp add: dev)
    have b2: "1 / 10 ^ 12 < Jacobian_deviation c ?cg2 x1 k" using a by (simp add: dev)
    from checkJacobian_loop_fail [OF lt b1 b2, of "[Suc k..<size_n cg0]"] obtain cgp where
      "check_gradient c ?cg2 x1 = Inl (JacobianIncorrect (?dev k), cgp)"
      unfolding cg sp dev by blast
    then have "body c cg x fx fmin fold' = Exit (Panic (JacobianIncorrect (?dev k)) cgp x1)"
      using nz nc by (simp add: body_eq [OF lm])
    from iterations_Exit [OF runs this] it show ?thesis by auto
  qed
  from pass fail show ?thesis unfolding Let_def by blast
qed

theorem C6_Jacobian_check_witness:
  "\<exists>cg x fx fmin fold' cg1 x1 fmin1 cg3 cgp.
     well_formed ex_collab (ex_cg\<lparr>CheckJfcn := True\<rparr>) \<and> CheckJfcn (ex_cg\<lparr>CheckJfcn := True\<rparr>) \<and>
     loop_head ex_collab (ex_cg\<lparr>CheckJfcn := True\<rparr>) [1] 0 = Some (cg, x, fx, fmin, fold') \<and>
     NumIter cg < MaxIt cg \<and> \<not> \<bar>VecDot (g cg) (g cg)\<bar> < tiny cg \<and>
     line_minimization ex_collab cg x fold' = (cg1, x1, fmin1) \<and>
     \<not> converged_on_f cg1 fmin1 fx \<and> x1 = [1 / 2] \<and>
     check_gradient ex_collab (update_gradient cg1 x1) x1 = Inr cg3 \<and>
     well_formed ex_collab (ex_cg\<lparr>CheckJfcn := True, jfcn := ex_wrong_jfcn\<rparr>) \<and>
     CheckJfcn (ex_cg\<lparr>CheckJfcn := True, jfcn := ex_wrong_jfcn\<rparr>) \<and>
     Min ex_collab (ex_cg\<lparr>CheckJfcn := True, jfcn := ex_wrong_jfcn\<rparr>) [1]
       = Panic (JacobianIncorrect (1 / 2)) cgp [1 / 2]"
proof -
  let ?cA = "ex_cg\<lparr>CheckJfcn := True\<rparr>"
  let ?cB = "ex_cg\<lparr>CheckJfcn := True, jfcn := ex_wrong_jfcn\<rparr>"
  have q: "((1 / 2 + 1 / 1000) * (1 / 2 + 1 / 1000) - (1 / 2 - 1 / 1000) * (1 / 2 - 1 / 1000))
      / (2 * (1 / 1000)) = (1::real)" by simp
  \<comment> \<open>a correct gradient passes\<close>
  have wfA: "well_formed ex_collab ?cA"
    by (rule ex_well_formed) (simp_all add: ex_cg_fields)
  have lxA: "length [1::real] = size_n ?cA" and cjA: "CheckJfcn ?cA"
    by (simp_all add: ex_cg_fields)
  obtain cg x fx fmin fold' where i: "initializations ?cA [1] = (cg, x, fx, fmin, fold')"
    by (cases "initializations ?cA [1]") auto
  have "size_n ?cA = 1" "ffcn ?cA = ex_ffcn" "jfcn ?cA = ex_jfcn"
    "length (g ?cA) = 1" "length (h ?cA) = 1"
    by (simp_all add: ex_cg_fields)
  note e = ex_init [OF this i]
  have par: "MaxIt cg = 200" "tiny cg = 1 / 10 ^ 18" "Ftol cg = 1 / 10 ^ 8" "UseBrent cg = False"
    using e(7) by (simp_all add: same_params_def ex_cg_fields)
  have head: "loop_head ex_collab ?cA [1] 0 = Some (cg, x, fx, fmin, fold')" by (simp add: i)
  have runs: "NumIter cg < MaxIt cg" by (simp add: e par)
  have nz: "\<not> \<bar>VecDot (g cg) (g cg)\<bar> < tiny cg" by (simp add: e par VecDot_def)
  obtain cg1 x1 fmin1 where lm: "line_minimization ex_collab cg x fold' = (cg1, x1, fmin1)"
    by (cases "line_minimization ex_collab cg x fold'") auto
  have l1: "x1 = [1 / 2]" "fmin1 = 1 / 4"
    using lm unfolding line_minimization_eq
    by (auto simp: linesearch_def par ex_collab_def e)
  have par1: "Ftol cg1 = 1 / 10 ^ 8" "tiny cg1 = 1 / 10 ^ 18"
    using line_minimization_config [OF lm] par by (simp_all add: same_config_def same_params_def)
  have nc: "\<not> converged_on_f cg1 fmin1 fx"
    by (simp add: converged_on_f_def par1 l1 e)
  note tA = C6_Jacobian_check [OF wfA lxA cjA head runs nz lm nc, unfolded Let_def, of 0]
  have "\<forall>k < size_n ?cA. \<bar>jfcn ?cA x1 ! k
      - DerivCen5 ex_collab (x1 ! k) (1 / 10 ^ 3) (\<lambda>xk. ffcn ?cA (x1[k := xk]))\<bar> \<le> 1 / 10 ^ 12"
    using q by (simp add: ex_cg_fields l1 ex_jfcn_def ex_ffcn_def ex_collab_def)
  with tA obtain cg3 where
    c3: "check_gradient ex_collab (update_gradient cg1 x1) x1 = Inr cg3" by blast
  \<comment> \<open>a wrong gradient aborts\<close>
  have wfB: "well_formed ex_collab ?cB"
    by (simp add: well_formed_def ex_cg_fields ex_wrong_jfcn_def ex_collab_def)
  have lxB: "length [1::real] = size_n ?cB" and cjB: "CheckJfcn ?cB"
    by (simp_all add: ex_cg_fields)
  obtain cgb xb fxb fminb foldb where ib: "initializations ?cB [1] = (cgb, xb, fxb, fminb, foldb)"
    by (cases "initializations ?cB [1]") auto
  note fb = initializations_facts [OF ib]
  have "length (jfcn ?cB [1]) = size_n ?cB" "length (g ?cB) = size_n ?cB"
    "length (h ?cB) = size_n ?cB"
    by (simp_all add: ex_cg_fields ex_wrong_jfcn_def)
  note db = initializations_directions [OF this ib]
  have parb: "MaxIt cgb = 200" "tiny cgb = 1 / 10 ^ 18" "Ftol cgb = 1 / 10 ^ 8"
    "UseBrent cgb = False"
    using fb(1) by (simp_all add: same_params_def ex_cg_fields)
  have vb: "xb = [1]" "fxb = 1" "g cgb = [- 3]"
    using fb db by (simp_all add: ex_cg_fields ex_ffcn_def ex_wrong_jfcn_def)
  have headb: "loop_head ex_collab ?cB [1] 0 = Some (cgb, xb, fxb, fminb, foldb)"
    by (simp add: ib)
  have runsb: "NumIter cgb < MaxIt cgb" by (simp add: fb parb)
  have nzb: "\<not> \<bar>VecDot (g cgb) (g cgb)\<bar> < tiny cgb" by (simp add: vb parb VecDot_def)
  obtain cgc xc fminc where
    lmb: "line_minimization ex_collab cgb xb foldb = (cgc, xc, fminc)"
    by (cases "line_minimization ex_collab cgb xb foldb") auto
  have lb: "xc = [1 / 2]" "fminc = 1 / 4"
    using lmb unfolding line_minimization_eq
    by (auto simp: linesearch_def parb ex_collab_def vb)
  have parc: "Ftol cgc = 1 / 10 ^ 8" "tiny cgc = 1 / 10 ^ 18"
    using line_minimization_config [OF lmb] parb
    by (simp_all add: same_config_def same_params_def)
  have ncb: "\<not> converged_on_f cgc fminc fxb"
    by (simp add: converged_on_f_def parc lb vb)
  note tB = C6_Jacobian_check [OF wfB lxB cjB headb runsb nzb lmb ncb, unfolded Let_def, of 0]
  have dv: "\<bar>jfcn ?cB xc ! 0
      - DerivCen5 ex_collab (xc ! 0) (1 / 10 ^ 3) (\<lambda>xk. ffcn ?cB (xc[0 := xk]))\<bar> = 1 / 2"
    using q by (simp add: ex_cg_fields lb ex_wrong_jfcn_def ex_ffcn_def ex_collab_def)
  have "0 < size_n ?cB" by (simp add: ex_cg_fields)
  with tB obtain cgp where
    "Min ex_collab ?cB [1] = Panic (JacobianIncorrect (1 / 2)) cgp xc"
    unfolding dv by auto
  then have pB: "Min ex_collab ?cB [1] = Panic (JacobianIncorrect (1 / 2)) cgp [1 / 2]"
    using lb by simp
  from wfA cjA head runs nz lm nc l1(1) c3 wfB cjB pB show ?thesis by blast
qed

end
